theory Spec2Isabelle
  imports Complex_Main
begin

section \<open>WGAN-GP training script: tensors and errors\<close>

text \<open>
  Tensors of the script are nested lists of reals, outermost dimension first: an image is
  channels x height x width, a batch is a list of images, a score tensor of shape (n, 1) is
  a list of one-element lists. Floating-point numbers are idealised as reals. An empty
  list stands for a zero extent (the inner extents are then not recorded).
\<close>

type_synonym image = "real list list list"

type_synonym batch = "image list"

datatype error =
    ShapeMismatch
  | StopIteration
  | ZeroDivisionError
  | ValueError
  | FileNotFoundError string
  | SystemExit int

definition bind_err :: "error + 'a \<Rightarrow> ('a \<Rightarrow> error + 'b) \<Rightarrow> error + 'b" where
  "bind_err m f = (case m of Inl e \<Rightarrow> Inl e | Inr x \<Rightarrow> f x)"

fun sequence_err :: "(error + 'a) list \<Rightarrow> error + 'a list" where
  "sequence_err [] = Inr []"
| "sequence_err (m # ms) =
     (case m of
        Inl e \<Rightarrow> Inl e
      | Inr x \<Rightarrow> (case sequence_err ms of Inl e \<Rightarrow> Inl e | Inr xs \<Rightarrow> Inr (x # xs)))"

text \<open>
  One dimension of an elementwise operation of torch: extents must be equal, or one of
  them is 1 and is repeated; anything else raises.
\<close>

definition broadcast2 ::
  "('a \<Rightarrow> 'b \<Rightarrow> error + 'c) \<Rightarrow> 'a list \<Rightarrow> 'b list \<Rightarrow> error + 'c list" where
  "broadcast2 f xs ys =
     (if length xs = length ys then sequence_err (map2 f xs ys)
      else if length xs = 1 then sequence_err (map (f (hd xs)) ys)
      else if length ys = 1 then sequence_err (map (\<lambda>x. f x (hd ys)) xs)
      else Inl ShapeMismatch)"

definition scalar_op :: "(real \<Rightarrow> real \<Rightarrow> real) \<Rightarrow> real \<Rightarrow> real \<Rightarrow> error + real" where
  "scalar_op f a b = Inr (f a b)"

definition tensor2_op ::
  "(real \<Rightarrow> real \<Rightarrow> real) \<Rightarrow> real list list \<Rightarrow> real list list \<Rightarrow> error + real list list" where
  "tensor2_op f = broadcast2 (broadcast2 (scalar_op f))"

definition tensor4_op ::
  "(real \<Rightarrow> real \<Rightarrow> real) \<Rightarrow> batch \<Rightarrow> batch \<Rightarrow> error + batch" where
  "tensor4_op f = broadcast2 (broadcast2 (broadcast2 (broadcast2 (scalar_op f))))"

section \<open>Adaptive number of discriminator steps\<close>

text \<open>
  Lines 435-438: \<^verbatim>\<open>if gen_iterations < 25 or gen_iterations % 500 == 0: disc_steps = 100
  else: disc_steps = config['disc_steps']\<close>.
\<close>

definition scheduled_disc_steps :: "int \<Rightarrow> nat \<Rightarrow> int" where
  "scheduled_disc_steps config_disc_steps gen_iterations =
     (if gen_iterations < 25 \<or> gen_iterations mod 500 = 0 then 100 else config_disc_steps)"

section \<open>Gradient penalty\<close>

text \<open>
  \<^verbatim>\<open>torch.rand(n, 1, 1, 1)\<close>: n draws from the generator state, each wrapped to
  shape (1, 1, 1). The draw itself is the library's: a function from generator state to a
  value and the next state.
\<close>

fun draw_many :: "('r \<Rightarrow> real \<times> 'r) \<Rightarrow> nat \<Rightarrow> 'r \<Rightarrow> real list \<times> 'r" where
  "draw_many draw 0 r = ([], r)"
| "draw_many draw (Suc n) r =
     (let (x, r1) = draw r; (xs, r2) = draw_many draw n r1 in (x # xs, r2))"

definition rand_n111 :: "('r \<Rightarrow> real \<times> 'r) \<Rightarrow> nat \<Rightarrow> 'r \<Rightarrow> batch \<times> 'r" where
  "rand_n111 draw n r = (let (xs, r') = draw_many draw n r in (map (\<lambda>a. [[[a]]]) xs, r'))"

text \<open>\<^verbatim>\<open>alpha.expand_as(real)\<close> for alpha of shape (n, 1, 1, 1) and real of shape (n, C, H, W).\<close>

definition expand_as :: "batch \<Rightarrow> batch \<Rightarrow> batch" where
  "expand_as alpha real_b =
     map2 (\<lambda>a x. map (map (map (\<lambda>_. hd (hd (hd a))))) x) alpha real_b"

text \<open>\<^verbatim>\<open>gradients.view(gradients.shape[0], -1)\<close>: every sample becomes one vector.\<close>

definition view_flat :: "batch \<Rightarrow> real list list" where
  "view_flat t = map (\<lambda>g. concat (concat g)) t"

text \<open>\<^verbatim>\<open>.norm(2, dim=1)\<close>: the Euclidean norm of every row.\<close>

definition norm2 :: "real list \<Rightarrow> real" where
  "norm2 v = sqrt (sum_list (map (\<lambda>x. x ^ 2) v))"

text \<open>
  Lines 131-134: \<^verbatim>\<open>gradients = gradients.view(gradients.shape[0], -1);
  penalty = (gradients.norm(2, dim=1) - 1) ** 2; penalty = penalty * lambda_pen\<close>.
\<close>

definition penalty_of_gradients :: "batch \<Rightarrow> real \<Rightarrow> real list" where
  "penalty_of_gradients gradients lambda_pen =
     map (\<lambda>p. p * lambda_pen) (map (\<lambda>v. (norm2 v - 1) ^ 2) (view_flat gradients))"

text \<open>
  \<^verbatim>\<open>compute_gradient_penalty(real, fake, discriminator, lambda_pen)\<close>. The discriminator is
  a stack of convolutions and leaky ReLUs, so it scores every sample on its own:
  \<open>input_grad\<close> is the gradient of one sample's score in that sample, which is what
  \<^verbatim>\<open>torch.autograd.grad(outputs=out, inputs=x_hat, grad_outputs=ones)\<close> returns sample by
  sample. \<open>rand\<close> is one draw of \<^verbatim>\<open>torch.rand\<close>.
\<close>

definition interpolate :: "batch \<Rightarrow> batch \<Rightarrow> batch \<Rightarrow> error + batch" where
  "interpolate alpha real_b fake =
     bind_err (tensor4_op (*) alpha real_b) (\<lambda>ar.
     bind_err (tensor4_op (*) (map (map (map (map (\<lambda>a. 1 - a)))) alpha) fake) (\<lambda>af.
     tensor4_op (+) ar af))"

definition compute_gradient_penalty ::
  "('r \<Rightarrow> real \<times> 'r) \<Rightarrow> (image \<Rightarrow> image) \<Rightarrow> 'r \<Rightarrow> batch \<Rightarrow> batch \<Rightarrow> real
     \<Rightarrow> error + (real list \<times> 'r)" where
  "compute_gradient_penalty rand input_grad r real_b fake lambda_pen =
     (let (alpha0, r') = rand_n111 rand (length real_b) r;
          alpha = expand_as alpha0 real_b
      in bind_err (interpolate alpha real_b fake) (\<lambda>x_hat.
           Inr (penalty_of_gradients (map input_grad x_hat) lambda_pen, r')))"

section \<open>Start of a run: command line, configuration, result directory\<close>

text \<open>The keys the script reads from \<^verbatim>\<open>config.yml\<close> (lines 335-349).\<close>

record config =
  dataset :: string
  n_noise_features :: int
  epochs :: int
  cfg_disc_steps :: int
  gen_steps :: int
  batch_size :: int
  print_every :: int
  checkpoints :: int
  rolling_window :: int
  discriminator_filters :: int
  generator_filters :: int
  discriminator_label_noise :: real
  discriminator_input_noise :: real
  cfg_resume_training :: bool
  lambda_pen :: real

text \<open>\<^verbatim>\<open>str\<close> of an integer, as \<^verbatim>\<open>'{}'.format\<close> prints it.\<close>

fun str_nat :: "nat \<Rightarrow> string" where
  "str_nat n =
     (if n < 10 then [char_of (48 + n)]
      else str_nat (n div 10) @ [char_of (48 + n mod 10)])"

definition str_int :: "int \<Rightarrow> string" where
  "str_int k = (if k < 0 then CHR ''-'' # str_nat (nat (- k)) else str_nat (nat k))"

text \<open>How the models get their parameters (lines 381-386).\<close>

datatype weights = LoadStateDict string string | WeightInit

record startup =
  config_file :: string
  resume_training :: bool
  result_dir :: string
  video_dir :: string
  made_dirs :: "string list"
  copied_config :: "(string \<times> string) option"
  model_weights :: weights
  loaded :: config

text \<open>
  Lines 319-386. \<open>resume_from_folder\<close> is the value of the only command-line flag
  (\<^verbatim>\<open>'None'\<close> when it is absent), \<open>now\<close> the formatted time, \<open>files\<close> the YAML files as
  parsed, \<open>isdir\<close> the directories that exist. The first assignments of
  \<^verbatim>\<open>resume_training\<close> (lines 326 and 329) are overwritten by line 348.
\<close>

definition startup ::
  "string \<Rightarrow> string \<Rightarrow> (string \<rightharpoonup> config) \<Rightarrow> (string \<Rightarrow> bool) \<Rightarrow> error + startup" where
  "startup resume_from_folder now files isdir =
     (let folder =
            (if resume_from_folder \<noteq> ''None''
             then resume_from_folder @ (if resume_from_folder \<noteq> ''/'' then ''/'' else [])
             else resume_from_folder);
          cfile = (if resume_from_folder \<noteq> ''None'' then folder @ ''config.yml'' else ''config.yml'');
          resume0 = (resume_from_folder \<noteq> ''None'')
      in case files cfile of
           None \<Rightarrow> Inl (FileNotFoundError cfile)
         | Some c \<Rightarrow>
             (let resume = cfg_resume_training c in
              if \<not> resume then
                (let rdir = now @ ''_e'' @ str_int (epochs c) @ ''_d''
                              @ str_int (discriminator_filters c) @ ''_g''
                              @ str_int (generator_filters c) @ ''/''
                 in if isdir rdir then Inl (SystemExit (- 1))
                    else (case files ''config.yml'' of
                            None \<Rightarrow> Inl (FileNotFoundError ''config.yml'')
                          | Some _ \<Rightarrow>
                              Inr \<lparr>config_file = cfile, resume_training = resume,
                                   result_dir = rdir, video_dir = rdir @ ''video/'',
                                   made_dirs =
                                     (if isdir (rdir @ ''video/'') then [rdir]
                                      else [rdir, rdir @ ''video/'']),
                                   copied_config = Some (''config.yml'', rdir @ ''config.yml''),
                                   model_weights = WeightInit, loaded = c\<rparr>))
              else
                Inr \<lparr>config_file = cfile, resume_training = resume,
                     result_dir = folder, video_dir = folder @ ''video/'',
                     made_dirs = [], copied_config = None,
                     model_weights =
                       LoadStateDict (folder @ ''discriminator.pt'') (folder @ ''generator.pt''),
                     loaded = c\<rparr>))"

section \<open>Networks, optimizers, random generators\<close>

text \<open>
  A scalar read off a tensor with \<^verbatim>\<open>.item()\<close>: \<^verbatim>\<open>torch.mean\<close> of a tensor with no element
  is not a number.
\<close>

datatype scalar = Val real | NaN

definition mean1 :: "real list \<Rightarrow> scalar" where
  "mean1 xs = (if xs = [] then NaN else Val (sum_list xs / real (length xs)))"

definition mean2 :: "real list list \<Rightarrow> scalar" where
  "mean2 t = mean1 (concat t)"

fun neg :: "scalar \<Rightarrow> scalar" where
  "neg (Val x) = Val (- x)"
| "neg NaN = NaN"

text \<open>
  A network as the loop sees it: its parameters, their accumulated gradient
  (\<^verbatim>\<open>p.grad\<close>, absent before the first backward pass) and the flag \<^verbatim>\<open>p.requires_grad\<close>,
  which the loop sets for all parameters of a network at once.
\<close>

record net =
  params :: "real list"
  grad :: "real list option"
  requires_grad :: bool

text \<open>
  What the script takes from torch and numpy, as functions: one draw of \<^verbatim>\<open>torch.rand\<close>
  and of \<^verbatim>\<open>np.random.randn\<close>, the permutation a shuffling loader applies, the forward
  pass of the discriminator on one sample, the gradient of that score in the sample, the
  forward pass of the generator on one noise row given the whole noise batch (batch
  normalisation reads the batch), the gradients of the two losses in the parameters of
  discriminator and generator, and one step of Adam.
\<close>

record ('o, 'r) torch =
  rand :: "'r \<Rightarrow> real \<times> 'r"
  randn :: "'r \<Rightarrow> real \<times> 'r"
  shuffle :: "'r \<Rightarrow> image list \<Rightarrow> image list \<times> 'r"
  disc_forward :: "real list \<Rightarrow> image \<Rightarrow> real"
  disc_input_grad :: "real list \<Rightarrow> image \<Rightarrow> image"
  gen_forward :: "real list \<Rightarrow> real list list \<Rightarrow> real list \<Rightarrow> image"
  disc_loss_grads ::
    "real list \<Rightarrow> real list \<Rightarrow> batch \<Rightarrow> real list list \<Rightarrow> real list \<Rightarrow> real list \<times> real list"
  gen_loss_grads :: "real list \<Rightarrow> real list \<Rightarrow> real list list \<Rightarrow> real list \<times> real list"
  adam :: "'o \<Rightarrow> real list \<Rightarrow> real list option \<Rightarrow> 'o \<times> real list"

text \<open>\<^verbatim>\<open>discriminator(x)\<close> ends in \<^verbatim>\<open>x.view(-1, 1)\<close>: shape (n, 1).\<close>

definition discriminator_forward :: "('o, 'r) torch \<Rightarrow> net \<Rightarrow> batch \<Rightarrow> real list list" where
  "discriminator_forward T d x = map (\<lambda>img. [disc_forward T (params d) img]) x"

definition generator_forward :: "('o, 'r) torch \<Rightarrow> net \<Rightarrow> real list list \<Rightarrow> batch" where
  "generator_forward T g z = map (gen_forward T (params g) z) z"

text \<open>\<^verbatim>\<open>optimizer.zero_grad()\<close>: a gradient that exists is set to zero.\<close>

definition zero_grad :: "net \<Rightarrow> net" where
  "zero_grad m = m\<lparr>grad := map_option (map (\<lambda>_. 0)) (grad m)\<rparr>"

text \<open>
  \<^verbatim>\<open>loss.backward()\<close> adds the gradient of the loss to \<^verbatim>\<open>p.grad\<close> of the parameters that
  require a gradient and leaves the others alone.
\<close>

definition accumulate :: "real list option \<Rightarrow> real list \<Rightarrow> real list option" where
  "accumulate g d = (case g of None \<Rightarrow> Some d | Some a \<Rightarrow> Some (map2 (+) a d))"

definition backward_into :: "net \<Rightarrow> real list \<Rightarrow> net" where
  "backward_into m d = (if requires_grad m then m\<lparr>grad := accumulate (grad m) d\<rparr> else m)"

text \<open>\<^verbatim>\<open>np.random.randn(rows, cols)\<close>: a negative extent raises.\<close>

fun draw_rows :: "('r \<Rightarrow> real \<times> 'r) \<Rightarrow> nat \<Rightarrow> nat \<Rightarrow> 'r \<Rightarrow> real list list \<times> 'r" where
  "draw_rows draw 0 c r = ([], r)"
| "draw_rows draw (Suc n) c r =
     (let (row, r1) = draw_many draw c r; (rows, r2) = draw_rows draw n c r1
      in (row # rows, r2))"

definition randn_matrix ::
  "('r \<Rightarrow> real \<times> 'r) \<Rightarrow> int \<Rightarrow> int \<Rightarrow> 'r \<Rightarrow> error + (real list list \<times> 'r)" where
  "randn_matrix draw rows cols r =
     (if rows < 0 \<or> cols < 0 then Inl ValueError
      else Inr (draw_rows draw (nat rows) (nat cols) r))"

section \<open>The data loader\<close>

record data_loader =
  train_data :: "image list"
  loader_batch_size :: nat

text \<open>
  Line 290: \<^verbatim>\<open>DataLoader(train_data, batch_size=batch_size, num_workers=0, shuffle=True)\<close>,
  after the check of the dataset's name; a batch size that is not positive raises.
\<close>

definition load_dataset :: "int \<Rightarrow> string \<Rightarrow> image list \<Rightarrow> error + data_loader" where
  "load_dataset bs name images =
     (if name \<notin> set [''MNIST'', ''CIFAR10'', ''CELEBA'', ''POKEMON'', ''CATS'']
      then Inl (SystemExit (- 1))
      else if bs \<le> 0 then Inl ValueError
      else Inr \<lparr>train_data = images, loader_batch_size = nat bs\<rparr>)"

text \<open>\<^verbatim>\<open>len(train_loader)\<close>: the last batch may be short.\<close>

definition len_loader :: "data_loader \<Rightarrow> nat" where
  "len_loader L = (length (train_data L) + loader_batch_size L - 1) div loader_batch_size L"

function chunks :: "nat \<Rightarrow> 'a list \<Rightarrow> 'a list list" where
  "chunks n xs = (if n = 0 \<or> xs = [] then [] else take n xs # chunks n (drop n xs))"
  by pat_completeness auto
termination
  by (relation "measure (\<lambda>(n, xs). length xs)") auto

declare chunks.simps [simp del]

text \<open>\<^verbatim>\<open>iter(train_loader)\<close>: the batches of one pass, in a fresh order.\<close>

definition iter_loader :: "('o, 'r) torch \<Rightarrow> data_loader \<Rightarrow> 'r \<Rightarrow> batch list \<times> 'r" where
  "iter_loader T L r =
     (let (p, r') = shuffle T r (train_data L) in (chunks (loader_batch_size L) p, r'))"

section \<open>The training loop\<close>

text \<open>
  The calls into torch that change the networks, in the order the loop makes them. A
  backward pass is recorded with the loss it starts from and with the
  \<^verbatim>\<open>requires_grad\<close> flags of discriminator and generator at that moment.
\<close>

datatype which = Disc | Gen

datatype call = ZeroGrad which | Backward scalar bool bool | OptimizerStep which

text \<open>
  The module-level variables of lines 378-418 and of the loop. \<open>cursor_i\<close> and \<open>count_j\<close>
  are the loop counters \<^verbatim>\<open>i\<close> and \<^verbatim>\<open>j\<close>, \<open>writer\<close> the scalars given to
  \<^verbatim>\<open>writer.add_scalar\<close> with their tag and step.
\<close>

record ('o, 'r) state =
  discriminator :: net
  generator :: net
  disc_optimizer :: 'o
  gen_optimizer :: 'o
  torch_rng :: 'r
  numpy_rng :: 'r
  disc_losses :: "scalar list"
  gen_losses :: "scalar list"
  w_distances :: "scalar list"
  gradient_penalty_list :: "scalar list"
  epoch_dlosses :: "scalar list"
  epoch_glosses :: "scalar list"
  writer :: "(string \<times> scalar \<times> nat) list"
  gen_iterations :: nat
  steps :: nat
  disc_steps :: int
  cursor_i :: nat
  count_j :: nat
  train_iterator :: "batch list"
  calls :: "call list"

text \<open>
  Lines 444-472, one discriminator update on the batch \<open>images\<close>. The sum
  \<^verbatim>\<open>gen_output - disc_output + gradient_penalty\<close> adds a tensor of shape (n, 1) and one of
  shape (n): the penalty is read as shape (1, n).
\<close>

definition disc_step ::
  "('o, 'r) torch \<Rightarrow> config \<Rightarrow> batch \<Rightarrow> ('o, 'r) state \<Rightarrow> error + ('o, 'r) state" where
  "disc_step T cfg images s =
     (let common_batch_size = min (batch_size cfg) (int (length images));
          d0 = zero_grad (discriminator s)
      in bind_err (randn_matrix (randn T) common_batch_size (n_noise_features cfg) (numpy_rng s))
           (\<lambda>(noises, nr).
      let disc_output = discriminator_forward T d0 images;
          gen_images = generator_forward T (generator s) noises;
          gen_output = discriminator_forward T d0 gen_images;
          alpha = fst (draw_many (rand T) (length images) (torch_rng s))
      in bind_err (compute_gradient_penalty (rand T) (disc_input_grad T (params d0))
                     (torch_rng s) images gen_images (lambda_pen cfg))
           (\<lambda>(gradient_penalty, tr).
         bind_err (tensor2_op (-) gen_output disc_output) (\<lambda>diff.
         bind_err (tensor2_op (+) diff [gradient_penalty]) (\<lambda>total.
      let loss = mean2 total;
          (dd, dg) = disc_loss_grads T (params d0) (params (generator s)) images noises alpha;
          d1 = backward_into d0 dd;
          g1 = backward_into (generator s) dg
      in bind_err (tensor2_op (-) disc_output gen_output) (\<lambda>gap.
      let wdist = mean2 gap;
          (opt, new_params) = adam T (disc_optimizer s) (params d1) (grad d1)
      in Inr (s\<lparr>discriminator := d1\<lparr>params := new_params\<rparr>,
                generator := g1,
                disc_optimizer := opt,
                torch_rng := tr,
                numpy_rng := nr,
                disc_losses := disc_losses s @ [loss],
                epoch_dlosses := epoch_dlosses s @ [loss],
                w_distances := w_distances s @ [wdist],
                gradient_penalty_list := gradient_penalty_list s @ [mean1 gradient_penalty],
                writer := writer s @
                  [(''data/D_loss'', loss, steps s),
                   (''data/gradient_penalty'', mean1 gradient_penalty, steps s),
                   (''data/Wasserstein_distance_estimate'', wdist, steps s)],
                steps := steps s + 1,
                calls := calls s @
                  [ZeroGrad Disc,
                   Backward loss (requires_grad d0) (requires_grad (generator s)),
                   OptimizerStep Disc]\<rparr>)))))))"

text \<open>Lines 480-498, one generator update.\<close>

definition gen_step ::
  "('o, 'r) torch \<Rightarrow> config \<Rightarrow> ('o, 'r) state \<Rightarrow> error + ('o, 'r) state" where
  "gen_step T cfg s =
     (let g0 = zero_grad (generator s)
      in bind_err (randn_matrix (randn T) (batch_size cfg) (n_noise_features cfg) (numpy_rng s))
           (\<lambda>(noises, nr).
      let gen_images = generator_forward T g0 noises;
          gen_output = discriminator_forward T (discriminator s) gen_images;
          loss = neg (mean2 gen_output);
          (dd, dg) = gen_loss_grads T (params (discriminator s)) (params g0) noises;
          d1 = backward_into (discriminator s) dd;
          g1 = backward_into g0 dg;
          (opt, new_params) = adam T (gen_optimizer s) (params g1) (grad g1)
      in Inr (s\<lparr>discriminator := d1,
                generator := g1\<lparr>params := new_params\<rparr>,
                gen_optimizer := opt,
                numpy_rng := nr,
                gen_losses := gen_losses s @ [loss],
                epoch_glosses := epoch_glosses s @ [loss],
                writer := writer s @ [(''data/G_loss'', loss, gen_iterations s)],
                gen_iterations := gen_iterations s + 1,
                calls := calls s @
                  [ZeroGrad Gen,
                   Backward loss (requires_grad (discriminator s)) (requires_grad g0),
                   OptimizerStep Gen]\<rparr>)))"

text \<open>Lines 432-433 and 478-479: the flag of every parameter of the discriminator.\<close>

definition set_disc_requires_grad :: "bool \<Rightarrow> ('o, 'r) state \<Rightarrow> ('o, 'r) state" where
  "set_disc_requires_grad b s = s\<lparr>discriminator := (discriminator s)\<lparr>requires_grad := b\<rparr>\<rparr>"

text \<open>What one update step changes and what it leaves alone.\<close>

lemma zero_grad_simps [simp]:
  "requires_grad (zero_grad m) = requires_grad m" "params (zero_grad m) = params m"
  by (simp_all add: zero_grad_def)

lemma backward_into_simps [simp]:
  "requires_grad (backward_into m d) = requires_grad m"
  "params (backward_into m d) = params m"
  "\<not> requires_grad m \<Longrightarrow> backward_into m d = m"
  by (simp_all add: backward_into_def)

lemma disc_step_frame:
  assumes "disc_step T cfg images s = Inr s'"
  shows "cursor_i s' = cursor_i s" "count_j s' = count_j s"
    "train_iterator s' = train_iterator s" "disc_steps s' = disc_steps s"
    "gen_iterations s' = gen_iterations s" "gen_losses s' = gen_losses s"
    "requires_grad (discriminator s') = requires_grad (discriminator s)"
    "requires_grad (generator s') = requires_grad (generator s)"
  using assms
  unfolding disc_step_def Let_def bind_err_def
  by (auto split: sum.splits prod.splits)

lemma disc_step_appends:
  assumes "disc_step T cfg images s = Inr s'"
  shows "\<exists>loss. disc_losses s' = disc_losses s @ [loss]
           \<and> calls s' = calls s @
                [ZeroGrad Disc,
                 Backward loss (requires_grad (discriminator s)) (requires_grad (generator s)),
                 OptimizerStep Disc]"
  using assms
  unfolding disc_step_def Let_def bind_err_def
  by (auto split: sum.splits prod.splits)

lemma gen_step_frame:
  assumes "gen_step T cfg s = Inr s'"
  shows "cursor_i s' = cursor_i s" "count_j s' = count_j s"
    "train_iterator s' = train_iterator s" "disc_steps s' = disc_steps s"
    "gen_iterations s' = gen_iterations s + 1" "disc_losses s' = disc_losses s"
    "requires_grad (discriminator s') = requires_grad (discriminator s)"
    "requires_grad (generator s') = requires_grad (generator s)"
    "\<not> requires_grad (discriminator s) \<Longrightarrow> discriminator s' = discriminator s"
  using assms
  unfolding gen_step_def Let_def bind_err_def
  by (auto split: sum.splits prod.splits)

lemma gen_step_appends:
  assumes "gen_step T cfg s = Inr s'"
  shows "\<exists>loss. gen_losses s' = gen_losses s @ [loss]
           \<and> calls s' = calls s @
                [ZeroGrad Gen,
                 Backward loss (requires_grad (discriminator s)) (requires_grad (generator s)),
                 OptimizerStep Gen]"
  using assms
  unfolding gen_step_def Let_def bind_err_def
  by (auto split: sum.splits prod.splits)

text \<open>
  Lines 439-472, the inner loop: at most \<open>disc_steps\<close> updates, and none once the loader
  is exhausted. \<open>len\<close> is \<^verbatim>\<open>len(train_loader)\<close>.
\<close>

function disc_phase ::
  "('o, 'r) torch \<Rightarrow> config \<Rightarrow> nat \<Rightarrow> ('o, 'r) state \<Rightarrow> error + ('o, 'r) state" where
  "disc_phase T cfg len s =
     (if int (count_j s) < disc_steps s \<and> cursor_i s < len then
        (case train_iterator s of
           [] \<Rightarrow> Inl StopIteration
         | images # rest \<Rightarrow>
             (case disc_step T cfg images
                     (s\<lparr>count_j := count_j s + 1, cursor_i := cursor_i s + 1,
                        train_iterator := rest\<rparr>) of
                Inl e \<Rightarrow> Inl e
              | Inr s' \<Rightarrow> disc_phase T cfg len s'))
      else Inr s)"
  by pat_completeness auto
termination
  by (relation "measure (\<lambda>(T, cfg, len, s). len - cursor_i s)")
     (auto dest!: disc_step_frame(1))

text \<open>
  Lines 428-498, one pass of the outer loop: the discriminator's parameters are made
  trainable, the number of discriminator steps is chosen, the inner loop runs, the
  discriminator's parameters are frozen and the generator is updated once.
\<close>

definition outer_iteration ::
  "('o, 'r) torch \<Rightarrow> config \<Rightarrow> nat \<Rightarrow> ('o, 'r) state \<Rightarrow> error + ('o, 'r) state" where
  "outer_iteration T cfg len s =
     (let s1 = set_disc_requires_grad True s;
          s2 = s1\<lparr>disc_steps := scheduled_disc_steps (cfg_disc_steps cfg) (gen_iterations s1),
                  count_j := 0\<rparr>
      in case disc_phase T cfg len s2 of
           Inl e \<Rightarrow> Inl e
         | Inr s3 \<Rightarrow> gen_step T cfg (set_disc_requires_grad False s3))"

lemma disc_phase_frame:
  "disc_phase T cfg len s = Inr s' \<Longrightarrow>
     gen_iterations s' = gen_iterations s \<and> cursor_i s \<le> cursor_i s'
     \<and> (int (count_j s) < disc_steps s \<and> cursor_i s < len \<longrightarrow> cursor_i s < cursor_i s')"
proof (induction T cfg len s rule: disc_phase.induct)
  case (1 T cfg len s)
  show ?case
  proof (cases "int (count_j s) < disc_steps s \<and> cursor_i s < len")
    case False
    with "1.prems" show ?thesis by simp
  next
    case True
    with "1.prems" obtain images rest where it: "train_iterator s = images # rest"
      by (cases "train_iterator s") auto
    let ?s1 = "s\<lparr>count_j := count_j s + 1, cursor_i := cursor_i s + 1, train_iterator := rest\<rparr>"
    from "1.prems" True it obtain s2 where
      st: "disc_step T cfg images ?s1 = Inr s2" and rest: "disc_phase T cfg len s2 = Inr s'"
      by (cases "disc_step T cfg images ?s1") auto
    from "1.IH" [OF True it st rest]
    have ih: "gen_iterations s' = gen_iterations s2 \<and> cursor_i s2 \<le> cursor_i s'"
      by simp
    from disc_step_frame(1) [OF st] disc_step_frame(5) [OF st] ih
    show ?thesis by simp
  qed
qed

lemma outer_iteration_measure:
  assumes "outer_iteration T cfg len s = Inr s'" and "cursor_i s < len"
  shows "(len - cursor_i s') * 501 + (500 - gen_iterations s' mod 500) mod 500
         < (len - cursor_i s) * 501 + (500 - gen_iterations s mod 500) mod 500"
proof -
  let ?s2 = "(set_disc_requires_grad True s)
               \<lparr>disc_steps := scheduled_disc_steps (cfg_disc_steps cfg)
                                (gen_iterations (set_disc_requires_grad True s)),
                 count_j := 0\<rparr>"
  from assms(1) obtain s3 where
    ph: "disc_phase T cfg len ?s2 = Inr s3" and
    gs: "gen_step T cfg (set_disc_requires_grad False s3) = Inr s'"
    unfolding outer_iteration_def Let_def
    by (cases "disc_phase T cfg len ?s2") auto
  have g2: "gen_iterations ?s2 = gen_iterations s" and c2: "cursor_i ?s2 = cursor_i s"
    and j2: "count_j ?s2 = 0"
    and d2: "disc_steps ?s2 = scheduled_disc_steps (cfg_disc_steps cfg) (gen_iterations s)"
    by (simp_all add: set_disc_requires_grad_def)
  from disc_phase_frame [OF ph] g2 c2 j2 d2
  have g3: "gen_iterations s3 = gen_iterations s" and c3: "cursor_i s \<le> cursor_i s3"
    and adv: "0 < scheduled_disc_steps (cfg_disc_steps cfg) (gen_iterations s)
                \<Longrightarrow> cursor_i s < cursor_i s3"
    using assms(2) by simp_all
  from gen_step_frame(1) [OF gs] gen_step_frame(5) [OF gs]
  have g': "gen_iterations s' = gen_iterations s + 1" and c': "cursor_i s' = cursor_i s3"
    using g3 by (simp_all add: set_disc_requires_grad_def)
  show ?thesis
  proof (cases "cursor_i s < cursor_i s3")
    case True
    have "(500 - gen_iterations s' mod 500) mod 500 < 500" by simp
    moreover have "len - cursor_i s' < len - cursor_i s"
      using True assms(2) c' by simp
    then have "(len - cursor_i s') * 501 + 501 \<le> (len - cursor_i s) * 501"
      by simp
    ultimately show ?thesis by linarith
  next
    case False
    with c3 have eq: "cursor_i s3 = cursor_i s" by simp
    from False adv have "\<not> 0 < scheduled_disc_steps (cfg_disc_steps cfg) (gen_iterations s)"
      by blast
    then have m: "gen_iterations s mod 500 \<noteq> 0"
      by (auto simp: scheduled_disc_steps_def split: if_splits)
    have "(500 - (gen_iterations s + 1) mod 500) mod 500
          < (500 - gen_iterations s mod 500) mod 500"
    proof -
      have lt: "gen_iterations s mod 500 < 500" by simp
      have "(gen_iterations s + 1) mod 500 =
              (if gen_iterations s mod 500 = 499 then 0 else gen_iterations s mod 500 + 1)"
        by (simp add: mod_Suc)
      with m lt show ?thesis by (simp split: if_splits)
    qed
    then show ?thesis
      using eq c' g' by simp
  qed
qed

text \<open>Lines 427-498, the loop over the batches of one epoch.\<close>

function batch_loop ::
  "('o, 'r) torch \<Rightarrow> config \<Rightarrow> nat \<Rightarrow> ('o, 'r) state \<Rightarrow> error + ('o, 'r) state" where
  "batch_loop T cfg len s =
     (if cursor_i s < len then
        (case outer_iteration T cfg len s of
           Inl e \<Rightarrow> Inl e
         | Inr s' \<Rightarrow> batch_loop T cfg len s')
      else Inr s)"
  by pat_completeness auto
termination
  by (relation "measure (\<lambda>(T, cfg, len, s).
        (len - cursor_i s) * 501 + (500 - gen_iterations s mod 500) mod 500)")
     (auto dest: outer_iteration_measure)

text \<open>\<^verbatim>\<open>e % m\<close>: a zero divisor raises.\<close>

definition py_mod :: "int \<Rightarrow> int \<Rightarrow> error + int" where
  "py_mod a b = (if b = 0 then Inl ZeroDivisionError else Inr (a mod b))"

text \<open>
  \<^verbatim>\<open>checkpoint\<close> (lines 205-225) draws one noise batch; what it and \<^verbatim>\<open>generate_frame\<close>
  write to disk and plot is outside the state of the loop.
\<close>

definition checkpoint :: "('o, 'r) torch \<Rightarrow> config \<Rightarrow> ('o, 'r) state \<Rightarrow> error + ('o, 'r) state" where
  "checkpoint T cfg s =
     bind_err (randn_matrix (randn T) (batch_size cfg) (n_noise_features cfg) (numpy_rng s))
       (\<lambda>(noises, nr). Inr (s\<lparr>numpy_rng := nr\<rparr>))"

text \<open>Lines 421-504, the body of the loop over the epochs, for epoch \<open>e\<close>.\<close>

definition train_epoch ::
  "('o, 'r) torch \<Rightarrow> config \<Rightarrow> data_loader \<Rightarrow> int \<Rightarrow> ('o, 'r) state \<Rightarrow> error + ('o, 'r) state" where
  "train_epoch T cfg L e s =
     bind_err (py_mod e (print_every cfg)) (\<lambda>_.
       let (it, tr) = iter_loader T L (torch_rng s);
           s1 = s\<lparr>epoch_dlosses := [], epoch_glosses := [], train_iterator := it,
                  torch_rng := tr, cursor_i := 0\<rparr>
       in bind_err (batch_loop T cfg (len_loader L) s1) (\<lambda>s2.
          bind_err (py_mod e (checkpoints cfg)) (\<lambda>m.
            if m = 0 then checkpoint T cfg s2 else Inr s2)))"

text \<open>Lines 420-504: \<^verbatim>\<open>for e in range(epochs)\<close>.\<close>

fun train_epochs ::
  "('o, 'r) torch \<Rightarrow> config \<Rightarrow> data_loader \<Rightarrow> int list \<Rightarrow> ('o, 'r) state
     \<Rightarrow> error + ('o, 'r) state" where
  "train_epochs T cfg L [] s = Inr s"
| "train_epochs T cfg L (e # es) s =
     (case train_epoch T cfg L e s of
        Inl err \<Rightarrow> Inl err
      | Inr s' \<Rightarrow> train_epochs T cfg L es s')"

definition train ::
  "('o, 'r) torch \<Rightarrow> config \<Rightarrow> data_loader \<Rightarrow> ('o, 'r) state \<Rightarrow> error + ('o, 'r) state" where
  "train T cfg L s = train_epochs T cfg L [0..epochs cfg - 1] s"

text \<open>
  Lines 378-418: the state the loop starts from, with the networks, optimizers and
  generator states as given. The draw of \<^verbatim>\<open>frame_noise\<close> advances numpy's generator.
\<close>

definition init_state ::
  "('o, 'r) torch \<Rightarrow> config \<Rightarrow> real list \<Rightarrow> real list \<Rightarrow> 'o \<Rightarrow> 'o \<Rightarrow> 'r \<Rightarrow> 'r
     \<Rightarrow> error + ('o, 'r) state" where
  "init_state T cfg dparams gparams dopt gopt tr nr =
     bind_err (randn_matrix (randn T) (batch_size cfg) (n_noise_features cfg) nr)
       (\<lambda>(frame_noise, nr').
          Inr \<lparr>discriminator = \<lparr>params = dparams, grad = None, requires_grad = True\<rparr>,
               generator = \<lparr>params = gparams, grad = None, requires_grad = True\<rparr>,
               disc_optimizer = dopt, gen_optimizer = gopt,
               torch_rng = tr, numpy_rng = nr',
               disc_losses = [], gen_losses = [], w_distances = [],
               gradient_penalty_list = [], epoch_dlosses = [], epoch_glosses = [],
               writer = [], gen_iterations = 0, steps = 0,
               disc_steps = cfg_disc_steps cfg, cursor_i = 0, count_j = 0,
               train_iterator = [], calls = []\<rparr>)"

text \<open>Two images have the same extents.\<close>

definition same_shape :: "image \<Rightarrow> image \<Rightarrow> bool" where
  "same_shape x y = (map (map length) x = map (map length) y)"

text \<open>
  The interpolated sample in the words of the specification: one coefficient for all
  channels and positions of a sample.
\<close>

definition interpolated :: "real \<Rightarrow> image \<Rightarrow> image \<Rightarrow> image" where
  "interpolated a x y = map2 (map2 (map2 (\<lambda>u v. a * u + (1 - a) * v))) x y"

text \<open>
  The penalty in the words of the specification: for every sample, with its own
  coefficient, \<open>lambda * (norm - 1)^2\<close> for the norm of the flattened gradient of the
  discriminator at the interpolated sample.
\<close>

definition gradient_penalty_spec ::
  "(image \<Rightarrow> image) \<Rightarrow> real list \<Rightarrow> batch \<Rightarrow> batch \<Rightarrow> real \<Rightarrow> real list" where
  "gradient_penalty_spec input_grad alphas real_b fake lam =
     map (\<lambda>(a, x, y). lam * (norm2 (concat (concat (input_grad (interpolated a x y)))) - 1) ^ 2)
       (zip alphas (zip real_b fake))"

section \<open>A small instance\<close>

text \<open>
  Concrete networks, generators and data on which the theorems below are exercised:
  images of one pixel, a discriminator that returns the pixel, a generator that returns a
  black pixel, generators that count their draws, constant gradients, and an optimizer
  that counts its steps and subtracts the gradient from the parameters.
\<close>

definition toy_torch :: "(nat, nat) torch" where
  "toy_torch =
     \<lparr>rand = (\<lambda>r. (1 / 2, Suc r)),
      randn = (\<lambda>r. (0, Suc r)),
      shuffle = (\<lambda>r xs. (rev xs, Suc r)),
      disc_forward = (\<lambda>p x. hd (hd (hd x))),
      disc_input_grad = (\<lambda>p x. [[[1]]]),
      gen_forward = (\<lambda>p zs z. [[[0]]]),
      disc_loss_grads = (\<lambda>p q x z a. ([1], [2])),
      gen_loss_grads = (\<lambda>p q z. ([3], [4])),
      adam = (\<lambda>opt p g. (Suc opt, case g of None \<Rightarrow> p | Some d \<Rightarrow> map2 (-) p d))\<rparr>"

definition toy_config :: config where
  "toy_config =
     \<lparr>dataset = ''CIFAR10'', n_noise_features = 10, epochs = 1, cfg_disc_steps = 1,
      gen_steps = 1, batch_size = 8, print_every = 1, checkpoints = 1, rolling_window = 10,
      discriminator_filters = 64, generator_filters = 64, discriminator_label_noise = 0,
      discriminator_input_noise = 0, cfg_resume_training = False, lambda_pen = 10\<rparr>"

definition toy_loader :: data_loader where
  "toy_loader = \<lparr>train_data = [[[[1]]], [[[2]]], [[[3]]]], loader_batch_size = 8\<rparr>"

definition toy_state :: "(nat, nat) state" where
  "toy_state =
     \<lparr>discriminator = \<lparr>params = [0], grad = None, requires_grad = True\<rparr>,
      generator = \<lparr>params = [0], grad = None, requires_grad = True\<rparr>,
      disc_optimizer = 0, gen_optimizer = 0,
      torch_rng = 0, numpy_rng = 0,
      disc_losses = [], gen_losses = [], w_distances = [],
      gradient_penalty_list = [], epoch_dlosses = [], epoch_glosses = [],
      writer = [], gen_iterations = 0, steps = 0,
      disc_steps = 1, cursor_i = 0, count_j = 0,
      train_iterator = [], calls = []\<rparr>"


section \<open>Properties\<close>

subsection \<open>The step scheduler\<close>

text \<open>
  C1. For every count g of generator updates done so far, the number of discriminator
  updates scheduled before the next generator update is 100 when g < 25 or g is a positive
  multiple of 500, and the configured \<open>disc_steps\<close> otherwise; in particular it is 100 for
  g = 0, ..., 24 and for g = 500, 1000, 1500, and the configured value for g = 25, ..., 499
  and for g = 501.
\<close>

theorem scheduled_disc_steps_policy:
  "scheduled_disc_steps cfg g = (if g < 25 \<or> (0 < g \<and> 500 dvd g) then 100 else cfg)
   \<and> (\<forall>k \<in> {0..24}. scheduled_disc_steps cfg k = 100)
   \<and> scheduled_disc_steps cfg 500 = 100
   \<and> scheduled_disc_steps cfg 1000 = 100
   \<and> scheduled_disc_steps cfg 1500 = 100
   \<and> (\<forall>k \<in> {25..499}. scheduled_disc_steps cfg k = cfg)
   \<and> scheduled_disc_steps cfg 501 = cfg"
proof -
  have general: "scheduled_disc_steps cfg k = (if k < 25 \<or> (0 < k \<and> 500 dvd k) then 100 else cfg)"
    for k
    by (cases "k = 0") (auto simp: scheduled_disc_steps_def dvd_eq_mod_eq_0)
  have low: "\<forall>k \<in> {0..24}. scheduled_disc_steps cfg k = 100"
    by (simp add: scheduled_disc_steps_def)
  have mid: "\<forall>k \<in> {25..499}. scheduled_disc_steps cfg k = cfg"
    by (auto simp: scheduled_disc_steps_def)
  show ?thesis
    using general [of g] low mid by (simp add: scheduled_disc_steps_def)
qed

theorem scheduled_disc_steps_policy_witness:
  "scheduled_disc_steps 5 7 = 100 \<and> scheduled_disc_steps 5 300 = 5
   \<and> scheduled_disc_steps 5 500 = 100 \<and> scheduled_disc_steps 5 501 = 5"
proof -
  have "(7::nat) \<in> {0..24}" and "(300::nat) \<in> {25..499}"
    by simp_all
  then show ?thesis
    using scheduled_disc_steps_policy [of 5 7] by blast
qed

subsection \<open>The penalty formula\<close>

lemma norm2_nonneg: "0 \<le> norm2 v"
  unfolding norm2_def by (rule real_sqrt_ge_zero, rule sum_list_nonneg) auto

lemma penalty_of_gradients_length: "length (penalty_of_gradients gs l) = length gs"
  by (simp add: penalty_of_gradients_def view_flat_def)

lemma penalty_of_gradients_nth:
  "i < length gs \<Longrightarrow>
     penalty_of_gradients gs l ! i = (norm2 (view_flat gs ! i) - 1) ^ 2 * l"
  by (simp add: penalty_of_gradients_def view_flat_def)

lemma norm2_3_4: "norm2 [3, 4] = 5"
proof -
  have "sqrt ((5::real) ^ 2) = 5"
    by simp
  then show ?thesis
    by (simp add: norm2_def)
qed

text \<open>
  C3. As claimed, for every penalty weight \<open>lambda_pen \<ge> 0\<close> the penalty of a sample would
  be zero exactly when the norm of its gradient is 1. With \<open>lambda_pen = 0\<close>, a permitted
  weight, the penalty of a gradient of norm 5 is zero.
\<close>

theorem penalty_zero_iff_unit_norm_counterexample:
  "(0::real) \<le> 0
   \<and> penalty_of_gradients [[[[3, 4]]]] 0 ! 0 = 0
   \<and> norm2 (view_flat [[[[3, 4]]]] ! 0) \<noteq> 1"
  by (simp add: penalty_of_gradients_def view_flat_def norm2_3_4)

text \<open>
  C3, amended. For every gradient tensor, every sample i of it and every penalty weight
  \<open>lambda_pen \<ge> 0\<close>, the penalty \<open>(norm - 1)^2 * lambda_pen\<close> of the sample is non-negative
  and is zero when the norm of the sample's flattened gradient is 1; when
  \<open>lambda_pen > 0\<close> it is zero exactly when that norm is 1 (over the reals).
\<close>

theorem penalty_nonneg_zero_iff:
  assumes "0 \<le> lam" and "i < length gradients"
  shows "0 \<le> penalty_of_gradients gradients lam ! i
    \<and> (norm2 (view_flat gradients ! i) = 1
          \<longrightarrow> penalty_of_gradients gradients lam ! i = 0)
    \<and> (0 < lam \<longrightarrow>
          (penalty_of_gradients gradients lam ! i = 0
             \<longleftrightarrow> norm2 (view_flat gradients ! i) = 1))"
  using assms by (simp add: penalty_of_gradients_nth)

theorem penalty_nonneg_zero_iff_witness:
  "0 \<le> penalty_of_gradients [[[[3, 4]]], [[[1, 0]]]] 2 ! 0
   \<and> penalty_of_gradients [[[[3, 4]]], [[[1, 0]]]] 2 ! 0 \<noteq> 0
   \<and> norm2 (view_flat [[[[3, 4]]], [[[1, 0]]]] ! 0) \<noteq> 1"
proof -
  have n: "norm2 (view_flat [[[[3, 4]]], [[[1, 0]]]] ! 0) = 5"
    by (simp add: view_flat_def norm2_3_4)
  have "(0::real) \<le> 2" and "(0::nat) < length [[[[3, 4]]], [[[1, 0::real]]]]"
    by simp_all
  from penalty_nonneg_zero_iff [OF this] n show ?thesis
    by simp
qed

subsection \<open>Elementwise operations on tensors of equal extents\<close>

lemma sequence_err_map:
  "(\<And>x. x \<in> set xs \<Longrightarrow> f x = Inr (g x)) \<Longrightarrow> sequence_err (map f xs) = Inr (map g xs)"
  by (induction xs) simp_all

lemma broadcast2_same:
  assumes "length xs = length ys"
    and "\<And>x y. (x, y) \<in> set (zip xs ys) \<Longrightarrow> f x y = Inr (g x y)"
  shows "broadcast2 f xs ys = Inr (map2 g xs ys)"
proof -
  have "sequence_err (map (\<lambda>(x, y). f x y) (zip xs ys)) = Inr (map (\<lambda>(x, y). g x y) (zip xs ys))"
    by (rule sequence_err_map) (use assms(2) in auto)
  with assms(1) show ?thesis
    by (simp add: broadcast2_def)
qed

lemma map_eq_zipD:
  assumes "map f xs = map g ys" and "(x, y) \<in> set (zip xs ys)"
  shows "f x = g y"
proof -
  from assms(2) obtain k where k: "k < length xs" "k < length ys" "xs ! k = x" "ys ! k = y"
    by (auto simp: in_set_zip)
  from assms(1) have "map f xs ! k = map g ys ! k" by simp
  with k show ?thesis by simp
qed

lemma row_op_same:
  "length a = length b \<Longrightarrow> broadcast2 (scalar_op f) a b = Inr (map2 f a b)"
  by (rule broadcast2_same) (simp_all add: scalar_op_def)

lemma plane_op_same:
  assumes "map length x = map length y"
  shows "broadcast2 (broadcast2 (scalar_op f)) x y = Inr (map2 (map2 f) x y)"
proof (rule broadcast2_same)
  show "length x = length y" using assms by (rule map_eq_imp_length_eq)
  fix a b assume "(a, b) \<in> set (zip x y)"
  with assms have "length a = length b" by (rule map_eq_zipD)
  then show "broadcast2 (scalar_op f) a b = Inr (map2 f a b)" by (rule row_op_same)
qed

lemma image_op_same:
  assumes "same_shape x y"
  shows "broadcast2 (broadcast2 (broadcast2 (scalar_op f))) x y = Inr (map2 (map2 (map2 f)) x y)"
proof (rule broadcast2_same)
  from assms have eq: "map (map length) x = map (map length) y" by (simp add: same_shape_def)
  then show "length x = length y" by (rule map_eq_imp_length_eq)
  fix a b assume "(a, b) \<in> set (zip x y)"
  with eq have "map length a = map length b" by (rule map_eq_zipD)
  then show "broadcast2 (broadcast2 (scalar_op f)) a b = Inr (map2 (map2 f) a b)"
    by (rule plane_op_same)
qed

lemma tensor4_op_same:
  assumes "list_all2 same_shape X Y"
  shows "tensor4_op f X Y = Inr (map2 (map2 (map2 (map2 f))) X Y)"
  unfolding tensor4_op_def
proof (rule broadcast2_same)
  show "length X = length Y" using assms by (rule list_all2_lengthD)
  fix x y assume "(x, y) \<in> set (zip X Y)"
  with assms have "same_shape x y" by (auto simp: list_all2_iff)
  then show "broadcast2 (broadcast2 (broadcast2 (scalar_op f))) x y = Inr (map2 (map2 (map2 f)) x y)"
    by (rule image_op_same)
qed

lemma map_map2_pointwise:
  "length xs = length ys \<Longrightarrow> (\<And>x y. (x, y) \<in> set (zip xs ys) \<Longrightarrow> h (f x y) = k x)
     \<Longrightarrow> map h (map2 f xs ys) = map k xs"
  by (induction xs ys rule: list_induct2) simp_all

lemma plane_shape:
  assumes "map length x = map length y"
  shows "map length (map2 (map2 f) x y) = map length x"
proof (rule map_map2_pointwise)
  show "length x = length y" using assms by (rule map_eq_imp_length_eq)
  fix a b assume "(a, b) \<in> set (zip x y)"
  with assms have "length a = length b" by (rule map_eq_zipD)
  then show "length (map2 f a b) = length a" by simp
qed

lemma image_shape_map2:
  assumes "same_shape x y"
  shows "same_shape (map2 (map2 (map2 f)) x y) x"
proof -
  from assms have eq: "map (map length) x = map (map length) y" by (simp add: same_shape_def)
  have "map (map length) (map2 (map2 (map2 f)) x y) = map (map length) x"
  proof (rule map_map2_pointwise)
    show "length x = length y" using eq by (rule map_eq_imp_length_eq)
    fix a b assume "(a, b) \<in> set (zip x y)"
    with eq have "map length a = map length b" by (rule map_eq_zipD)
    then show "map length (map2 (map2 f) a b) = map length a" by (rule plane_shape)
  qed
  then show ?thesis by (simp add: same_shape_def)
qed

lemma same_shape_refl [simp]: "same_shape x x"
  by (simp add: same_shape_def)

lemma same_shape_sym: "same_shape x y \<Longrightarrow> same_shape y x"
  by (simp add: same_shape_def)

lemma same_shape_trans: "same_shape x y \<Longrightarrow> same_shape y z \<Longrightarrow> same_shape x z"
  by (simp add: same_shape_def)

lemma same_shape_map [simp]: "same_shape (map (map (map f)) x) x"
  by (simp add: same_shape_def comp_def)

subsection \<open>The interpolated batch\<close>

lemma draw_many_length: "draw_many d n r = (xs, r') \<Longrightarrow> length xs = n"
  by (induction n arbitrary: r xs r') (auto simp: Let_def split: prod.splits)

lemma expand_as_rand:
  "expand_as (map (\<lambda>a. [[[a]]]) as) X = map2 (\<lambda>a x. map (map (map (\<lambda>_. a))) x) as X"
  by (simp add: expand_as_def zip_map1 case_prod_unfold)

lemma row_interp:
  "length u = length v \<Longrightarrow>
     map2 (+) (map2 (*) (map (\<lambda>_. a) u) u) (map2 (*) (map (\<lambda>x. 1 - x) (map (\<lambda>_. a) u)) v)
       = map2 (\<lambda>p q. a * p + (1 - a) * q) u (v::real list)"
  by (induction u v rule: list_induct2) simp_all

lemma plane_interp:
  "length x = length y \<Longrightarrow> map length x = map length y \<Longrightarrow>
     map2 (map2 (+)) (map2 (map2 (*)) (map (map (\<lambda>_. a)) x) x)
        (map2 (map2 (*)) (map (map (\<lambda>x. 1 - x)) (map (map (\<lambda>_. a)) x)) y)
       = map2 (map2 (\<lambda>p q. a * p + (1 - a) * q)) x (y::real list list)"
proof (induction x y rule: list_induct2)
  case Nil
  show ?case by simp
next
  case (Cons p ps q qs)
  from Cons.prems have len: "length p = length q" and rest: "map length ps = map length qs"
    by simp_all
  show ?case
    by (simp only: list.map zip_Cons_Cons prod.case row_interp [OF len] Cons.IH [OF rest])
qed

lemma image_interp:
  "length x = length y \<Longrightarrow> map (map length) x = map (map length) y \<Longrightarrow>
     map2 (map2 (map2 (+))) (map2 (map2 (map2 (*))) (map (map (map (\<lambda>_. a))) x) x)
        (map2 (map2 (map2 (*))) (map (map (map (\<lambda>x. 1 - x))) (map (map (map (\<lambda>_. a))) x)) y)
       = interpolated a x y"
  unfolding interpolated_def
proof (induction x y rule: list_induct2)
  case Nil
  show ?case by simp
next
  case (Cons p ps q qs)
  from Cons.prems have sh: "map length p = map length q"
    and rest: "map (map length) ps = map (map length) qs"
    by simp_all
  from sh have len: "length p = length q" by (rule map_eq_imp_length_eq)
  show ?case
    by (simp only: list.map zip_Cons_Cons prod.case plane_interp [OF len sh] Cons.IH [OF rest])
qed

lemma same_shape_map_left [simp]: "same_shape (map (map (map f)) x) y = same_shape x y"
  by (simp add: same_shape_def comp_def)

lemma same_shape_map2_left:
  "same_shape x y \<Longrightarrow> same_shape (map2 (map2 (map2 f)) x y) z = same_shape x z"
  using image_shape_map2 [of x y f] by (simp add: same_shape_def)

lemma same_shape_lengthD: "same_shape x y \<Longrightarrow> length x = length y"
  unfolding same_shape_def by (rule map_eq_imp_length_eq)

lemma batch_interp:
  "length as = length X \<Longrightarrow> length X = length Y \<Longrightarrow> list_all2 same_shape X Y \<Longrightarrow>
     map2 (map2 (map2 (map2 (+))))
       (map2 (map2 (map2 (map2 (*)))) (map2 (\<lambda>a x. map (map (map (\<lambda>_. a))) x) as X) X)
       (map2 (map2 (map2 (map2 (*))))
          (map (map (map (map (\<lambda>a. 1 - a)))) (map2 (\<lambda>a x. map (map (map (\<lambda>_. a))) x) as X)) Y)
     = map (\<lambda>(a, x, y). interpolated a x y) (zip as (zip X Y))"
proof (induction as X Y rule: list_induct3)
  case Nil
  show ?case by simp
next
  case (Cons a as x X y Y)
  from Cons.prems have sh: "same_shape x y" and rest: "list_all2 same_shape X Y"
    by simp_all
  from sh have eq: "map (map length) x = map (map length) y" by (simp add: same_shape_def)
  from sh have len: "length x = length y" by (rule same_shape_lengthD)
  show ?case
    by (simp only: list.map zip_Cons_Cons prod.case image_interp [OF len eq] Cons.IH [OF rest])
qed

lemma batch_shapes:
  "length as = length X \<Longrightarrow> length X = length Y \<Longrightarrow> list_all2 same_shape X Y \<Longrightarrow>
     list_all2 same_shape (map2 (\<lambda>a x. map (map (map (\<lambda>_. a))) x) as X) X
     \<and> list_all2 same_shape
          (map (map (map (map (\<lambda>a. 1 - a)))) (map2 (\<lambda>a x. map (map (map (\<lambda>_. a))) x) as X)) Y
     \<and> list_all2 same_shape
          (map2 (map2 (map2 (map2 (*)))) (map2 (\<lambda>a x. map (map (map (\<lambda>_. a))) x) as X) X)
          (map2 (map2 (map2 (map2 (*))))
            (map (map (map (map (\<lambda>a. 1 - a)))) (map2 (\<lambda>a x. map (map (map (\<lambda>_. a))) x) as X)) Y)"
proof (induction as X Y rule: list_induct3)
  case Nil
  show ?case by simp
next
  case (Cons a as x X y Y)
  from Cons.prems have sh: "same_shape x y" and rest: "list_all2 same_shape X Y"
    by simp_all
  have k: "same_shape (map (map (map (\<lambda>_. a))) x) x" by simp
  have k1: "same_shape (map (map (map (\<lambda>a. 1 - a))) (map (map (map (\<lambda>_. a))) x)) y"
    using sh by (simp only: same_shape_map_left)
  have p: "same_shape (map2 (map2 (map2 (*))) (map (map (map (\<lambda>_. a))) x) x)
             (map2 (map2 (map2 (*))) (map (map (map (\<lambda>a. 1 - a))) (map (map (map (\<lambda>_. a))) x)) y)"
  proof -
    have "same_shape (map2 (map2 (map2 (*))) (map (map (map (\<lambda>_. a))) x) x) x"
      using k by (simp only: same_shape_map2_left [OF k])
    moreover have "same_shape (map2 (map2 (map2 (*)))
                     (map (map (map (\<lambda>a. 1 - a))) (map (map (map (\<lambda>_. a))) x)) y) x"
      using k1 by (simp only: same_shape_map2_left [OF k1] same_shape_map_left same_shape_refl)
    ultimately show ?thesis by (simp add: same_shape_def)
  qed
  from Cons.IH [OF rest] k k1 p show ?case
    by (simp only: list.map zip_Cons_Cons prod.case list_all2_Cons simp_thms)
qed

lemma interpolate_same:
  assumes "length as = length X" and "list_all2 same_shape X Y"
  shows "interpolate (map2 (\<lambda>a x. map (map (map (\<lambda>_. a))) x) as X) X Y
           = Inr (map (\<lambda>(a, x, y). interpolated a x y) (zip as (zip X Y)))"
proof -
  have len: "length X = length Y" using assms(2) by (rule list_all2_lengthD)
  note sh = batch_shapes [OF assms(1) len assms(2)]
  show ?thesis
    unfolding interpolate_def
    by (simp only: tensor4_op_same [OF sh [THEN conjunct1]]
          tensor4_op_same [OF sh [THEN conjunct2, THEN conjunct1]]
          tensor4_op_same [OF sh [THEN conjunct2, THEN conjunct2]]
          bind_err_def sum.case batch_interp [OF assms(1) len assms(2)])
qed

subsection \<open>The gradient penalty\<close>

lemma penalty_of_gradients_spec:
  "penalty_of_gradients (map ig (map (\<lambda>(a, x, y). interpolated a x y) (zip as (zip X Y)))) lam
     = gradient_penalty_spec ig as X Y lam"
  by (simp add: penalty_of_gradients_def view_flat_def gradient_penalty_spec_def
        case_prod_unfold mult.commute)

lemma compute_gradient_penalty_same:
  assumes "list_all2 same_shape X Y" and "draw_many rnd (length X) r = (as, r')"
  shows "compute_gradient_penalty rnd ig r X Y lam = Inr (gradient_penalty_spec ig as X Y lam, r')"
proof -
  have len: "length as = length X" using assms(2) by (rule draw_many_length)
  show ?thesis
    unfolding compute_gradient_penalty_def rand_n111_def
    by (simp only: assms(2) Let_def prod.case expand_as_rand
          interpolate_same [OF len assms(1)] bind_err_def sum.case penalty_of_gradients_spec)
qed

lemma gradient_penalty_spec_length:
  "length as = length X \<Longrightarrow> length X = length Y \<Longrightarrow>
     length (gradient_penalty_spec ig as X Y lam) = length X"
  by (simp add: gradient_penalty_spec_def)

text \<open>
  C2. For every real batch and fake batch of the same extents, discriminator and weight
  \<open>lam\<close>, the estimator draws one coefficient per sample (\<open>torch.rand\<close> with shape
  (n, 1, 1, 1), uniform in [0, 1) by the library's contract), uses it for all channels and
  positions of the sample in \<open>alpha * real + (1 - alpha) * fake\<close>, takes the gradient of the
  discriminator's output in the interpolated batch, flattens it sample by sample, and
  returns \<open>lam * (norm - 1)^2\<close> for every sample.
\<close>

theorem compute_gradient_penalty_refines_spec:
  assumes "list_all2 same_shape real_b fake"
  shows "\<exists>alphas r'.
           draw_many rnd (length real_b) r = (alphas, r')
           \<and> length alphas = length real_b
           \<and> compute_gradient_penalty rnd input_grad r real_b fake lam
               = Inr (gradient_penalty_spec input_grad alphas real_b fake lam, r')
           \<and> length (gradient_penalty_spec input_grad alphas real_b fake lam) = length real_b"
proof -
  obtain alphas r' where d: "draw_many rnd (length real_b) r = (alphas, r')"
    by (cases "draw_many rnd (length real_b) r")
  have len: "length alphas = length real_b" using d by (rule draw_many_length)
  have len2: "length real_b = length fake" using assms by (rule list_all2_lengthD)
  from d len compute_gradient_penalty_same [OF assms d]
    gradient_penalty_spec_length [OF len len2]
  show ?thesis by blast
qed

theorem compute_gradient_penalty_refines_spec_witness:
  "compute_gradient_penalty (\<lambda>r::nat. (1 / 2, Suc r)) (\<lambda>x. x) 0
      [[[[2, 4]]], [[[1, 1]]]] [[[[4, 4]]], [[[5, 7]]]] 10 = Inr ([160, 160], 2)"
proof -
  have sh: "list_all2 same_shape [[[[2, 4]]], [[[1, 1]]]] [[[[4, 4]]], [[[5, 7]]]]"
    by (simp add: same_shape_def)
  from compute_gradient_penalty_refines_spec [OF sh, of "\<lambda>r::nat. (1 / 2, Suc r)" 0 "\<lambda>x. x" 10]
  show ?thesis
    by (simp add: numeral_2_eq_2 gradient_penalty_spec_def interpolated_def norm2_3_4)
qed

subsection \<open>The loss of the discriminator\<close>

lemma draw_rows_length: "draw_rows d n c r = (m, r') \<Longrightarrow> length m = n"
  by (induction n arbitrary: r m r') (auto simp: Let_def split: prod.splits)

lemma randn_matrix_ok:
  assumes "0 \<le> rows" and "0 \<le> cols"
  shows "\<exists>m r'. randn_matrix d rows cols r = Inr (m, r') \<and> length m = nat rows"
proof -
  obtain m r' where dr: "draw_rows d (nat rows) (nat cols) r = (m, r')"
    by (cases "draw_rows d (nat rows) (nat cols) r")
  from draw_rows_length [OF dr] dr assms show ?thesis
    by (simp add: randn_matrix_def)
qed

lemma score_op:
  assumes "length X = length Y"
  shows "tensor2_op f (map (\<lambda>x. [p x]) X) (map (\<lambda>y. [q y]) Y)
           = Inr (map2 (\<lambda>x y. [f (p x) (q y)]) X Y)"
proof -
  have "map length (map (\<lambda>x. [p x]) X) = map length (map (\<lambda>y. [q y]) Y)"
    using assms by (induction X Y rule: list_induct2) simp_all
  from plane_op_same [OF this, of f] assms show ?thesis
    unfolding tensor2_op_def
    by (simp add: zip_map_map case_prod_unfold)
qed

lemma row_plus_penalty:
  "broadcast2 (scalar_op (+)) [d] gp = Inr (map (\<lambda>p. d + p) gp)"
proof (cases "length gp = 1")
  case True
  then obtain p where "gp = [p]" by (cases gp) auto
  then show ?thesis by (simp add: broadcast2_def scalar_op_def)
next
  case False
  have "sequence_err (map (scalar_op (+) d) gp) = Inr (map (\<lambda>p. d + p) gp)"
    by (rule sequence_err_map) (simp add: scalar_op_def)
  with False show ?thesis
    by (auto simp: broadcast2_def)
qed

lemma scores_plus_penalty:
  "tensor2_op (+) (map (\<lambda>d. [d]) ds) [gp] = Inr (map (\<lambda>d. map (\<lambda>p. d + p) gp) ds)"
proof (cases "length ds = 1")
  case True
  then obtain d where "ds = [d]" by (cases ds) auto
  then show ?thesis
    by (simp add: tensor2_op_def broadcast2_def [of "broadcast2 (scalar_op (+))"] row_plus_penalty)
next
  case False
  have "sequence_err (map (\<lambda>x. broadcast2 (scalar_op (+)) x gp) (map (\<lambda>d. [d]) ds))
          = Inr (map (\<lambda>x. map (\<lambda>p. hd x + p) gp) (map (\<lambda>d. [d]) ds))"
    by (rule sequence_err_map) (auto simp: row_plus_penalty)
  with False show ?thesis
    by (simp add: tensor2_op_def broadcast2_def [of "broadcast2 (scalar_op (+))"] comp_def)
qed

lemma sum_list_shift: "sum_list (map (\<lambda>p. d + p) gp) = real (length gp) * d + sum_list (gp::real list)"
  by (induction gp) (simp_all add: algebra_simps)

lemma sum_list_outer:
  "sum_list (concat (map (\<lambda>d. map (\<lambda>p. d + p) gp) ds))
     = real (length gp) * sum_list ds + real (length ds) * sum_list (gp::real list)"
  by (induction ds) (simp_all add: sum_list_shift algebra_simps)

lemma length_outer: "length (concat (map (\<lambda>d. map (\<lambda>p. d + p) gp) ds)) = length ds * length gp"
  by (induction ds) simp_all

lemma sum_list_map2_add:
  "length ds = length gp \<Longrightarrow> sum_list (map2 (+) ds gp) = sum_list ds + sum_list (gp::real list)"
  by (induction ds gp rule: list_induct2) simp_all

lemma mean_outer:
  assumes "length ds = length gp" and "ds \<noteq> []"
  shows "mean2 (map (\<lambda>d. map (\<lambda>p. d + p) gp) ds) = mean1 (map2 (+) ds gp)"
proof -
  let ?n = "real (length ds)"
  have n: "?n \<noteq> 0" using assms(2) by simp
  have ne: "concat (map (\<lambda>d. map (\<lambda>p. d + p) gp) ds) \<noteq> []"
    using length_outer [of gp ds] assms by (metis length_0_conv mult_is_0)
  have "sum_list (concat (map (\<lambda>d. map (\<lambda>p. d + p) gp) ds))
          / real (length (concat (map (\<lambda>d. map (\<lambda>p. d + p) gp) ds)))
        = (?n * sum_list ds + ?n * sum_list gp) / (?n * ?n)"
    by (simp add: sum_list_outer length_outer assms(1) [symmetric])
  also have "\<dots> = (sum_list ds + sum_list gp) / ?n"
    using n by (simp add: field_simps)
  finally show ?thesis
    using ne assms by (simp add: mean2_def mean1_def sum_list_map2_add)
qed

lemma concat_singletons: "concat (map (\<lambda>d. [d]) ds) = ds"
  by (induction ds) simp_all

lemma map2_singletons: "map2 (\<lambda>x y. [f x y]) X Y = map (\<lambda>d. [d]) (map2 f X Y)"
  by (simp add: case_prod_unfold)

lemma disc_step_result:
  assumes rn: "randn_matrix (randn T) (min (batch_size cfg) (int (length images)))
                 (n_noise_features cfg) (numpy_rng s) = Inr (noises, nr)"
    and len: "length noises = length images"
    and cg: "compute_gradient_penalty (rand T) (disc_input_grad T (params (discriminator s)))
               (torch_rng s) images (generator_forward T (generator s) noises) (lambda_pen cfg)
             = Inr (gp, tr)"
  shows "\<exists>s'. disc_step T cfg images s = Inr s'
    \<and> disc_losses s' = disc_losses s @
         [mean2 (map (\<lambda>d. map (\<lambda>p. d + p) gp)
            (map2 (\<lambda>g x. disc_forward T (params (discriminator s)) g
                            - disc_forward T (params (discriminator s)) x)
               (generator_forward T (generator s) noises) images))]
    \<and> w_distances s' = w_distances s @
         [mean1 (map2 (\<lambda>x g. disc_forward T (params (discriminator s)) x
                            - disc_forward T (params (discriminator s)) g)
               images (generator_forward T (generator s) noises))]
    \<and> gradient_penalty_list s' = gradient_penalty_list s @ [mean1 gp]
    \<and> calls s' = calls s @
         [ZeroGrad Disc,
          Backward
            (mean2 (map (\<lambda>d. map (\<lambda>p. d + p) gp)
              (map2 (\<lambda>g x. disc_forward T (params (discriminator s)) g
                            - disc_forward T (params (discriminator s)) x)
                 (generator_forward T (generator s) noises) images)))
            (requires_grad (discriminator s)) (requires_grad (generator s)),
          OptimizerStep Disc]
    \<and> numpy_rng s' = nr \<and> torch_rng s' = tr"
proof -
  let ?D = "disc_forward T (params (discriminator s))"
  let ?G = "generator_forward T (generator s) noises"
  have lg: "length ?G = length images"
    using len by (simp add: generator_forward_def)
  have t1: "tensor2_op (-) (map (\<lambda>x. [?D x]) ?G) (map (\<lambda>y. [?D y]) images)
              = Inr (map (\<lambda>d. [d]) (map2 (\<lambda>g x. ?D g - ?D x) ?G images))"
    using score_op [OF lg, of "(-)" ?D ?D] by (simp only: map2_singletons)
  have t3: "tensor2_op (-) (map (\<lambda>y. [?D y]) images) (map (\<lambda>x. [?D x]) ?G)
              = Inr (map (\<lambda>d. [d]) (map2 (\<lambda>x g. ?D x - ?D g) images ?G))"
    using score_op [OF lg [symmetric], of "(-)" ?D ?D] by (simp only: map2_singletons)
  show ?thesis
    unfolding disc_step_def discriminator_forward_def Let_def
    by (simp only: rn cg t1 t3 zero_grad_simps bind_err_def sum.case prod.case
          scores_plus_penalty mean2_def concat_singletons)
       (simp split: prod.splits)
qed

lemma generated_same_shape:
  assumes "\<forall>x\<in>set images. \<forall>p zs z. same_shape x (gen_forward T p zs z)"
    and "length noises = length images"
  shows "list_all2 same_shape images (generator_forward T g noises)"
  using assms by (auto simp: list_all2_conv_all_nth generator_forward_def)

lemma disc_step_ok:
  assumes bs: "int (length images) \<le> batch_size cfg"
    and nz: "0 \<le> n_noise_features cfg"
    and sh: "\<forall>x\<in>set images. \<forall>p zs z. same_shape x (gen_forward T p zs z)"
  shows "\<exists>noises nr alphas tr s'.
      randn_matrix (randn T) (min (batch_size cfg) (int (length images)))
        (n_noise_features cfg) (numpy_rng s) = Inr (noises, nr)
    \<and> length noises = length images
    \<and> draw_many (rand T) (length images) (torch_rng s) = (alphas, tr)
    \<and> length alphas = length images
    \<and> disc_step T cfg images s = Inr s'
    \<and> disc_losses s' = disc_losses s @
         [mean2 (map (\<lambda>d. map (\<lambda>p. d + p)
                   (gradient_penalty_spec (disc_input_grad T (params (discriminator s))) alphas
                      images (generator_forward T (generator s) noises) (lambda_pen cfg)))
            (map2 (\<lambda>g x. disc_forward T (params (discriminator s)) g
                            - disc_forward T (params (discriminator s)) x)
               (generator_forward T (generator s) noises) images))]
    \<and> w_distances s' = w_distances s @
         [mean1 (map2 (\<lambda>x g. disc_forward T (params (discriminator s)) x
                            - disc_forward T (params (discriminator s)) g)
               images (generator_forward T (generator s) noises))]
    \<and> calls s' = calls s @
         [ZeroGrad Disc,
          Backward
            (mean2 (map (\<lambda>d. map (\<lambda>p. d + p)
                   (gradient_penalty_spec (disc_input_grad T (params (discriminator s))) alphas
                      images (generator_forward T (generator s) noises) (lambda_pen cfg)))
              (map2 (\<lambda>g x. disc_forward T (params (discriminator s)) g
                            - disc_forward T (params (discriminator s)) x)
                 (generator_forward T (generator s) noises) images)))
            (requires_grad (discriminator s)) (requires_grad (generator s)),
          OptimizerStep Disc]"
proof -
  have m: "min (batch_size cfg) (int (length images)) = int (length images)"
    using bs by simp
  from randn_matrix_ok [of "int (length images)" "n_noise_features cfg" "randn T" "numpy_rng s"] nz
  obtain noises nr where
    rn: "randn_matrix (randn T) (int (length images)) (n_noise_features cfg) (numpy_rng s)
           = Inr (noises, nr)"
    and ln: "length noises = length images"
    by auto
  obtain alphas tr where dm: "draw_many (rand T) (length images) (torch_rng s) = (alphas, tr)"
    by (cases "draw_many (rand T) (length images) (torch_rng s)")
  have la: "length alphas = length images" using dm by (rule draw_many_length)
  have shapes: "list_all2 same_shape images (generator_forward T (generator s) noises)"
    using sh ln by (rule generated_same_shape)
  note cg = compute_gradient_penalty_same [OF shapes dm,
      of "disc_input_grad T (params (discriminator s))" "lambda_pen cfg"]
  from rn m have rn': "randn_matrix (randn T) (min (batch_size cfg) (int (length images)))
      (n_noise_features cfg) (numpy_rng s) = Inr (noises, nr)"
    by simp
  from disc_step_result [OF rn' ln cg] obtain s' where
    "disc_step T cfg images s = Inr s'"
    "disc_losses s' = disc_losses s @
         [mean2 (map (\<lambda>d. map (\<lambda>p. d + p)
                   (gradient_penalty_spec (disc_input_grad T (params (discriminator s))) alphas
                      images (generator_forward T (generator s) noises) (lambda_pen cfg)))
            (map2 (\<lambda>g x. disc_forward T (params (discriminator s)) g
                            - disc_forward T (params (discriminator s)) x)
               (generator_forward T (generator s) noises) images))]"
    "w_distances s' = w_distances s @
         [mean1 (map2 (\<lambda>x g. disc_forward T (params (discriminator s)) x
                            - disc_forward T (params (discriminator s)) g)
               images (generator_forward T (generator s) noises))]"
    "calls s' = calls s @
         [ZeroGrad Disc,
          Backward
            (mean2 (map (\<lambda>d. map (\<lambda>p. d + p)
                   (gradient_penalty_spec (disc_input_grad T (params (discriminator s))) alphas
                      images (generator_forward T (generator s) noises) (lambda_pen cfg)))
              (map2 (\<lambda>g x. disc_forward T (params (discriminator s)) g
                            - disc_forward T (params (discriminator s)) x)
                 (generator_forward T (generator s) noises) images)))
            (requires_grad (discriminator s)) (requires_grad (generator s)),
          OptimizerStep Disc]"
    by blast
  with rn' ln dm la show ?thesis by blast
qed

text \<open>What one update step does to the networks and the optimizers.\<close>

lemma randn_matrix_length:
  "randn_matrix d rows cols r = Inr (m, r') \<Longrightarrow> int (length m) = rows"
  by (auto simp: randn_matrix_def split: if_splits dest: draw_rows_length)

lemma disc_step_networks:
  assumes "disc_step T cfg images s = Inr s'"
  shows "\<exists>noises.
      randn_matrix (randn T) (min (batch_size cfg) (int (length images)))
        (n_noise_features cfg) (numpy_rng s) = Inr (noises, numpy_rng s')
    \<and> discriminator s' =
        (backward_into (zero_grad (discriminator s))
           (fst (disc_loss_grads T (params (discriminator s)) (params (generator s)) images noises
                  (fst (draw_many (rand T) (length images) (torch_rng s))))))
        \<lparr>params := snd (adam T (disc_optimizer s) (params (discriminator s))
             (grad (backward_into (zero_grad (discriminator s))
                (fst (disc_loss_grads T (params (discriminator s)) (params (generator s)) images
                        noises (fst (draw_many (rand T) (length images) (torch_rng s))))))))\<rparr>
    \<and> disc_optimizer s' =
        fst (adam T (disc_optimizer s) (params (discriminator s))
             (grad (backward_into (zero_grad (discriminator s))
                (fst (disc_loss_grads T (params (discriminator s)) (params (generator s)) images
                        noises (fst (draw_many (rand T) (length images) (torch_rng s))))))))
    \<and> generator s' =
        backward_into (generator s)
           (snd (disc_loss_grads T (params (discriminator s)) (params (generator s)) images noises
                  (fst (draw_many (rand T) (length images) (torch_rng s)))))
    \<and> gen_optimizer s' = gen_optimizer s"
  using assms
  unfolding disc_step_def Let_def bind_err_def
  by (auto split: sum.splits prod.splits)

lemma gen_step_networks:
  assumes "gen_step T cfg s = Inr s'"
  shows "\<exists>noises.
      randn_matrix (randn T) (batch_size cfg) (n_noise_features cfg) (numpy_rng s)
        = Inr (noises, numpy_rng s')
    \<and> generator s' =
        (backward_into (zero_grad (generator s))
           (snd (gen_loss_grads T (params (discriminator s)) (params (generator s)) noises)))
        \<lparr>params := snd (adam T (gen_optimizer s) (params (generator s))
             (grad (backward_into (zero_grad (generator s))
                (snd (gen_loss_grads T (params (discriminator s)) (params (generator s))
                        noises)))))\<rparr>
    \<and> gen_optimizer s' =
        fst (adam T (gen_optimizer s) (params (generator s))
             (grad (backward_into (zero_grad (generator s))
                (snd (gen_loss_grads T (params (discriminator s)) (params (generator s))
                        noises)))))
    \<and> discriminator s' =
        backward_into (discriminator s)
           (fst (gen_loss_grads T (params (discriminator s)) (params (generator s)) noises))
    \<and> disc_optimizer s' = disc_optimizer s
    \<and> torch_rng s' = torch_rng s"
  using assms
  unfolding gen_step_def Let_def bind_err_def
  by (auto split: sum.splits prod.splits)

subsection \<open>One discriminator update\<close>

lemma mean1_nonempty: "xs \<noteq> [] \<Longrightarrow> mean1 xs = Val (sum_list xs / real (length xs))"
  by (simp add: mean1_def)

lemma disc_step_losses:
  assumes ne: "images \<noteq> []"
    and bs: "int (length images) \<le> batch_size cfg"
    and nz: "0 \<le> n_noise_features cfg"
    and sh: "\<forall>x\<in>set images. \<forall>p zs z. same_shape x (gen_forward T p zs z)"
  shows "\<exists>noises nr alphas tr s'.
      randn_matrix (randn T) (min (batch_size cfg) (int (length images)))
        (n_noise_features cfg) (numpy_rng s) = Inr (noises, nr)
    \<and> int (length noises) = min (batch_size cfg) (int (length images))
    \<and> draw_many (rand T) (length images) (torch_rng s) = (alphas, tr)
    \<and> disc_step T cfg images s = Inr s'
    \<and> disc_losses s' = disc_losses s @
         [Val (sum_list (map2 (+)
                 (map2 (\<lambda>g x. disc_forward T (params (discriminator s)) g
                                 - disc_forward T (params (discriminator s)) x)
                    (generator_forward T (generator s) noises) images)
                 (gradient_penalty_spec (disc_input_grad T (params (discriminator s))) alphas
                    images (generator_forward T (generator s) noises) (lambda_pen cfg)))
               / real (length images))]
    \<and> w_distances s' = w_distances s @
         [Val (sum_list (map2 (\<lambda>x g. disc_forward T (params (discriminator s)) x
                                      - disc_forward T (params (discriminator s)) g)
               images (generator_forward T (generator s) noises))
               / real (length images))]
    \<and> calls s' = calls s @
         [ZeroGrad Disc,
          Backward (last (disc_losses s'))
            (requires_grad (discriminator s)) (requires_grad (generator s)),
          OptimizerStep Disc]"
proof -
  let ?D = "disc_forward T (params (discriminator s))"
  from disc_step_ok [OF bs nz sh, of s] obtain noises nr alphas tr s' where
    rn: "randn_matrix (randn T) (min (batch_size cfg) (int (length images)))
        (n_noise_features cfg) (numpy_rng s) = Inr (noises, nr)"
    and ln: "length noises = length images"
    and dm: "draw_many (rand T) (length images) (torch_rng s) = (alphas, tr)"
    and la: "length alphas = length images"
    and st: "disc_step T cfg images s = Inr s'"
    and dl: "disc_losses s' = disc_losses s @
         [mean2 (map (\<lambda>d. map (\<lambda>p. d + p)
                   (gradient_penalty_spec (disc_input_grad T (params (discriminator s))) alphas
                      images (generator_forward T (generator s) noises) (lambda_pen cfg)))
            (map2 (\<lambda>g x. ?D g - ?D x) (generator_forward T (generator s) noises) images))]"
    and wd: "w_distances s' = w_distances s @
         [mean1 (map2 (\<lambda>x g. ?D x - ?D g) images (generator_forward T (generator s) noises))]"
    and cl: "calls s' = calls s @
         [ZeroGrad Disc,
          Backward
            (mean2 (map (\<lambda>d. map (\<lambda>p. d + p)
                   (gradient_penalty_spec (disc_input_grad T (params (discriminator s))) alphas
                      images (generator_forward T (generator s) noises) (lambda_pen cfg)))
              (map2 (\<lambda>g x. ?D g - ?D x) (generator_forward T (generator s) noises) images)))
            (requires_grad (discriminator s)) (requires_grad (generator s)),
          OptimizerStep Disc]"
    by blast
  let ?G = "generator_forward T (generator s) noises"
  let ?gp = "gradient_penalty_spec (disc_input_grad T (params (discriminator s))) alphas
               images ?G (lambda_pen cfg)"
  let ?ds = "map2 (\<lambda>g x. ?D g - ?D x) ?G images"
  have lg: "length ?G = length images" using ln by (simp add: generator_forward_def)
  have lgp: "length ?gp = length images"
    using la lg by (simp add: gradient_penalty_spec_length)
  have lds: "length ?ds = length ?gp" using lg lgp by simp
  have nds: "?ds \<noteq> []" using ne lg by (cases images; cases ?G) auto
  have nsum: "map2 (+) ?ds ?gp \<noteq> []"
    using nds lds by (cases ?ds; cases ?gp) auto
  have lsum: "length (map2 (+) ?ds ?gp) = length images"
    using lds lgp by simp
  have loss: "mean2 (map (\<lambda>d. map (\<lambda>p. d + p) ?gp) ?ds)
                = Val (sum_list (map2 (+) ?ds ?gp) / real (length images))"
    using mean_outer [OF lds nds] mean1_nonempty [OF nsum] lsum by simp
  have nw: "map2 (\<lambda>x g. ?D x - ?D g) images ?G \<noteq> []"
    using ne lg by (cases images; cases ?G) auto
  have wdist: "mean1 (map2 (\<lambda>x g. ?D x - ?D g) images ?G)
                 = Val (sum_list (map2 (\<lambda>x g. ?D x - ?D g) images ?G) / real (length images))"
    using mean1_nonempty [OF nw] lg by simp
  have n: "int (length noises) = min (batch_size cfg) (int (length images))"
    using ln bs by simp
  from dl loss have dl': "disc_losses s' = disc_losses s @
      [Val (sum_list (map2 (+) ?ds ?gp) / real (length images))]"
    by simp
  from cl loss dl' have cl': "calls s' = calls s @
         [ZeroGrad Disc,
          Backward (last (disc_losses s'))
            (requires_grad (discriminator s)) (requires_grad (generator s)),
          OptimizerStep Disc]"
    by simp
  from wd wdist have wd': "w_distances s' = w_distances s @
      [Val (sum_list (map2 (\<lambda>x g. ?D x - ?D g) images ?G) / real (length images))]"
    by simp
  from rn n dm st dl' wd' cl' show ?thesis by blast
qed

lemma toy_fields [simp]:
  "batch_size toy_config = 8" "n_noise_features toy_config = 10" "epochs toy_config = 1"
  "cfg_disc_steps toy_config = 1" "print_every toy_config = 1" "checkpoints toy_config = 1"
  "lambda_pen toy_config = 10"
  "gen_forward toy_torch = (\<lambda>p zs z. [[[0]]])"
  "disc_forward toy_torch = (\<lambda>p x. hd (hd (hd x)))"
  "disc_input_grad toy_torch = (\<lambda>p x. [[[1]]])"
  "shuffle toy_torch = (\<lambda>r xs. (rev xs, Suc r))"
  "train_data toy_loader = [[[[1]]], [[[2]]], [[[3]]]]" "loader_batch_size toy_loader = 8"
  "disc_losses toy_state = []" "gen_losses toy_state = []" "w_distances toy_state = []"
  "calls toy_state = []" "gen_iterations toy_state = 0"
  "requires_grad (discriminator toy_state)" "requires_grad (generator toy_state)"
  by (simp_all add: toy_config_def toy_torch_def toy_loader_def toy_state_def)

lemma length3E:
  assumes "length xs = 3"
  obtains a b c where "xs = [a, b, c]"
  using assms by (auto simp: numeral_3_eq_3 length_Suc_conv)

lemma norm2_1: "norm2 [1] = 1"
  by (simp add: norm2_def)

lemma disc_step_torch_rng:
  assumes "disc_step T cfg images s = Inr s'"
  shows "torch_rng s' = snd (draw_many (rand T) (length images) (torch_rng s))"
  using assms
  unfolding disc_step_def Let_def bind_err_def compute_gradient_penalty_def rand_n111_def
  by (auto split: sum.splits prod.splits)

lemma toy_small_batch_size:
  "\<exists>s'. disc_step toy_torch (toy_config\<lparr>batch_size := 1\<rparr>) [[[[1]]], [[[2]]]] toy_state = Inr s'"
  by (simp add: disc_step_def Let_def bind_err_def randn_matrix_def
        compute_gradient_penalty_def rand_n111_def expand_as_def interpolate_def
        tensor4_op_def tensor2_op_def broadcast2_def scalar_op_def
        discriminator_forward_def generator_forward_def penalty_of_gradients_def view_flat_def
        toy_torch_def toy_config_def toy_state_def eval_nat_numeral
        split: prod.splits)

text \<open>
  C4. For every non-empty real batch that the loader can yield (at most \<open>batch_size\<close>
  images, of the extents of the generator's images), one discriminator update draws a
  noise batch of \<open>min(batch_size, size of the real batch)\<close> rows, computes the loss as the
  mean over the samples of fake score - real score + penalty, makes one backward pass
  from that loss (the gradient of the loss is added to the zeroed gradient of the
  discriminator, and to the gradient of the generator, which is not frozen) and one step
  of the discriminator's optimizer on the discriminator's parameters (the generator's
  parameters and optimizer stay as they are), and records the mean of real score - fake
  score as the Wasserstein estimate, which no backward pass starts from. Whatever the
  size of the batch, an update that returns has drawn \<open>min(batch_size, size)\<close> noise rows.
\<close>

theorem disc_step_update:
  assumes ne: "images \<noteq> []"
    and bs: "int (length images) \<le> batch_size cfg"
    and nz: "0 \<le> n_noise_features cfg"
    and sh: "\<forall>x\<in>set images. \<forall>p zs z. same_shape x (gen_forward T p zs z)"
  shows "(\<exists>noises nr alphas tr s'.
      randn_matrix (randn T) (min (batch_size cfg) (int (length images)))
        (n_noise_features cfg) (numpy_rng s) = Inr (noises, nr)
    \<and> int (length noises) = min (batch_size cfg) (int (length images))
    \<and> draw_many (rand T) (length images) (torch_rng s) = (alphas, tr)
    \<and> disc_step T cfg images s = Inr s'
    \<and> disc_losses s' = disc_losses s @
         [Val (sum_list (map2 (+)
                 (map2 (\<lambda>g x. disc_forward T (params (discriminator s)) g
                                 - disc_forward T (params (discriminator s)) x)
                    (generator_forward T (generator s) noises) images)
                 (gradient_penalty_spec (disc_input_grad T (params (discriminator s))) alphas
                    images (generator_forward T (generator s) noises) (lambda_pen cfg)))
               / real (length images))]
    \<and> w_distances s' = w_distances s @
         [Val (sum_list (map2 (\<lambda>x g. disc_forward T (params (discriminator s)) x
                                      - disc_forward T (params (discriminator s)) g)
               images (generator_forward T (generator s) noises))
               / real (length images))]
    \<and> calls s' = calls s @
         [ZeroGrad Disc,
          Backward (last (disc_losses s'))
            (requires_grad (discriminator s)) (requires_grad (generator s)),
          OptimizerStep Disc]
    \<and> discriminator s' =
        (backward_into (zero_grad (discriminator s))
           (fst (disc_loss_grads T (params (discriminator s)) (params (generator s)) images noises
                  alphas)))
        \<lparr>params := snd (adam T (disc_optimizer s) (params (discriminator s))
             (grad (backward_into (zero_grad (discriminator s))
                (fst (disc_loss_grads T (params (discriminator s)) (params (generator s)) images
                        noises alphas)))))\<rparr>
    \<and> disc_optimizer s' =
        fst (adam T (disc_optimizer s) (params (discriminator s))
             (grad (backward_into (zero_grad (discriminator s))
                (fst (disc_loss_grads T (params (discriminator s)) (params (generator s)) images
                        noises alphas)))))
    \<and> generator s' =
        backward_into (generator s)
           (snd (disc_loss_grads T (params (discriminator s)) (params (generator s)) images noises
                  alphas))
    \<and> gen_optimizer s' = gen_optimizer s
    \<and> numpy_rng s' = nr \<and> torch_rng s' = tr)
  \<and> (\<forall>imgs s1 s2. disc_step T cfg imgs s1 = Inr s2 \<longrightarrow>
        (\<exists>zs. randn_matrix (randn T) (min (batch_size cfg) (int (length imgs)))
                (n_noise_features cfg) (numpy_rng s1) = Inr (zs, numpy_rng s2)
              \<and> int (length zs) = min (batch_size cfg) (int (length imgs))))"
proof (rule conjI)
  from disc_step_losses [OF ne bs nz sh, of s] obtain noises nr alphas tr s' where
    rn: "randn_matrix (randn T) (min (batch_size cfg) (int (length images)))
        (n_noise_features cfg) (numpy_rng s) = Inr (noises, nr)"
    and n: "int (length noises) = min (batch_size cfg) (int (length images))"
    and dm: "draw_many (rand T) (length images) (torch_rng s) = (alphas, tr)"
    and st: "disc_step T cfg images s = Inr s'"
    and dl: "disc_losses s' = disc_losses s @
         [Val (sum_list (map2 (+)
                 (map2 (\<lambda>g x. disc_forward T (params (discriminator s)) g
                                 - disc_forward T (params (discriminator s)) x)
                    (generator_forward T (generator s) noises) images)
                 (gradient_penalty_spec (disc_input_grad T (params (discriminator s))) alphas
                    images (generator_forward T (generator s) noises) (lambda_pen cfg)))
               / real (length images))]"
    and wd: "w_distances s' = w_distances s @
         [Val (sum_list (map2 (\<lambda>x g. disc_forward T (params (discriminator s)) x
                                      - disc_forward T (params (discriminator s)) g)
               images (generator_forward T (generator s) noises))
               / real (length images))]"
    and cl: "calls s' = calls s @
         [ZeroGrad Disc,
          Backward (last (disc_losses s'))
            (requires_grad (discriminator s)) (requires_grad (generator s)),
          OptimizerStep Disc]"
    by (elim exE conjE)
  from disc_step_networks [OF st] obtain noises' where
    rn': "randn_matrix (randn T) (min (batch_size cfg) (int (length images)))
        (n_noise_features cfg) (numpy_rng s) = Inr (noises', numpy_rng s')"
    and d': "discriminator s' =
        (backward_into (zero_grad (discriminator s))
           (fst (disc_loss_grads T (params (discriminator s)) (params (generator s)) images noises'
                  (fst (draw_many (rand T) (length images) (torch_rng s))))))
        \<lparr>params := snd (adam T (disc_optimizer s) (params (discriminator s))
             (grad (backward_into (zero_grad (discriminator s))
                (fst (disc_loss_grads T (params (discriminator s)) (params (generator s)) images
                        noises' (fst (draw_many (rand T) (length images) (torch_rng s))))))))\<rparr>"
    and o': "disc_optimizer s' =
        fst (adam T (disc_optimizer s) (params (discriminator s))
             (grad (backward_into (zero_grad (discriminator s))
                (fst (disc_loss_grads T (params (discriminator s)) (params (generator s)) images
                        noises' (fst (draw_many (rand T) (length images) (torch_rng s))))))))"
    and g': "generator s' =
        backward_into (generator s)
           (snd (disc_loss_grads T (params (discriminator s)) (params (generator s)) images noises'
                  (fst (draw_many (rand T) (length images) (torch_rng s)))))"
    and go': "gen_optimizer s' = gen_optimizer s"
    by (elim exE conjE)
  from rn rn' have same: "noises' = noises" "numpy_rng s' = nr" by simp_all
  have al: "fst (draw_many (rand T) (length images) (torch_rng s)) = alphas"
    and trng: "torch_rng s' = tr"
    using dm disc_step_torch_rng [OF st] by simp_all
  note d = d' [unfolded same al] and o = o' [unfolded same al] and g = g' [unfolded same al]
  from rn n dm st dl wd cl d o g go' same(2) trng
  show "\<exists>noises nr alphas tr s'.
      randn_matrix (randn T) (min (batch_size cfg) (int (length images)))
        (n_noise_features cfg) (numpy_rng s) = Inr (noises, nr)
    \<and> int (length noises) = min (batch_size cfg) (int (length images))
    \<and> draw_many (rand T) (length images) (torch_rng s) = (alphas, tr)
    \<and> disc_step T cfg images s = Inr s'
    \<and> disc_losses s' = disc_losses s @
         [Val (sum_list (map2 (+)
                 (map2 (\<lambda>g x. disc_forward T (params (discriminator s)) g
                                 - disc_forward T (params (discriminator s)) x)
                    (generator_forward T (generator s) noises) images)
                 (gradient_penalty_spec (disc_input_grad T (params (discriminator s))) alphas
                    images (generator_forward T (generator s) noises) (lambda_pen cfg)))
               / real (length images))]
    \<and> w_distances s' = w_distances s @
         [Val (sum_list (map2 (\<lambda>x g. disc_forward T (params (discriminator s)) x
                                      - disc_forward T (params (discriminator s)) g)
               images (generator_forward T (generator s) noises))
               / real (length images))]
    \<and> calls s' = calls s @
         [ZeroGrad Disc,
          Backward (last (disc_losses s'))
            (requires_grad (discriminator s)) (requires_grad (generator s)),
          OptimizerStep Disc]
    \<and> discriminator s' =
        (backward_into (zero_grad (discriminator s))
           (fst (disc_loss_grads T (params (discriminator s)) (params (generator s)) images noises
                  alphas)))
        \<lparr>params := snd (adam T (disc_optimizer s) (params (discriminator s))
             (grad (backward_into (zero_grad (discriminator s))
                (fst (disc_loss_grads T (params (discriminator s)) (params (generator s)) images
                        noises alphas)))))\<rparr>
    \<and> disc_optimizer s' =
        fst (adam T (disc_optimizer s) (params (discriminator s))
             (grad (backward_into (zero_grad (discriminator s))
                (fst (disc_loss_grads T (params (discriminator s)) (params (generator s)) images
                        noises alphas)))))
    \<and> generator s' =
        backward_into (generator s)
           (snd (disc_loss_grads T (params (discriminator s)) (params (generator s)) images noises
                  alphas))
    \<and> gen_optimizer s' = gen_optimizer s
    \<and> numpy_rng s' = nr \<and> torch_rng s' = tr"
    by (intro exI [of _ noises] exI [of _ nr] exI [of _ alphas] exI [of _ tr] exI [of _ s'] conjI)
       assumption+
next
  show "\<forall>imgs s1 s2. disc_step T cfg imgs s1 = Inr s2 \<longrightarrow>
        (\<exists>zs. randn_matrix (randn T) (min (batch_size cfg) (int (length imgs)))
                (n_noise_features cfg) (numpy_rng s1) = Inr (zs, numpy_rng s2)
              \<and> int (length zs) = min (batch_size cfg) (int (length imgs)))"
  proof (intro allI impI)
    fix imgs s1 s2
    assume "disc_step T cfg imgs s1 = Inr s2"
    from disc_step_networks [OF this] obtain zs where
      rn: "randn_matrix (randn T) (min (batch_size cfg) (int (length imgs)))
                (n_noise_features cfg) (numpy_rng s1) = Inr (zs, numpy_rng s2)"
      by (elim exE conjE)
    from rn randn_matrix_length [OF rn]
    show "\<exists>zs. randn_matrix (randn T) (min (batch_size cfg) (int (length imgs)))
                (n_noise_features cfg) (numpy_rng s1) = Inr (zs, numpy_rng s2)
              \<and> int (length zs) = min (batch_size cfg) (int (length imgs))"
      by (intro exI [of _ zs] conjI)
  qed
qed

theorem disc_step_update_witness:
  "(\<exists>s'. disc_step toy_torch toy_config [[[[1]]], [[[2]]], [[[3]]]] toy_state = Inr s'
     \<and> disc_losses s' = [Val (- 2)] \<and> w_distances s' = [Val 2]
     \<and> calls s' = [ZeroGrad Disc, Backward (Val (- 2)) True True, OptimizerStep Disc]
     \<and> discriminator s' = \<lparr>params = [- 1], grad = Some [1], requires_grad = True\<rparr>
     \<and> disc_optimizer s' = 1
     \<and> generator s' = \<lparr>params = [0], grad = Some [2], requires_grad = True\<rparr>
     \<and> gen_optimizer s' = 0)
   \<and> (\<exists>s2 zs. disc_step toy_torch (toy_config\<lparr>batch_size := 1\<rparr>) [[[[1]]], [[[2]]]] toy_state
                  = Inr s2
          \<and> randn_matrix (randn toy_torch) 1 10 0 = Inr (zs, numpy_rng s2) \<and> length zs = 1)"
proof (rule conjI)
  have ne: "[[[[1]]], [[[2]]], [[[3::real]]]] \<noteq> []" by simp
  have bs: "int (length [[[[1]]], [[[2]]], [[[3::real]]]]) \<le> batch_size toy_config" by simp
  have nz: "0 \<le> n_noise_features toy_config" by simp
  have sh: "\<forall>x\<in>set [[[[1]]], [[[2]]], [[[3::real]]]]. \<forall>p zs z. same_shape x (gen_forward toy_torch p zs z)"
    by (simp add: same_shape_def)
  from disc_step_update [OF ne bs nz sh, of toy_state, THEN conjunct1]
  obtain noises nr alphas tr s' where
    n: "int (length noises) = min (batch_size toy_config) (int (length [[[[1]]], [[[2]]], [[[3::real]]]]))"
    and dm: "draw_many (rand toy_torch) (length [[[[1]]], [[[2]]], [[[3::real]]]]) (torch_rng toy_state) = (alphas, tr)"
    and st: "disc_step toy_torch toy_config [[[[1]]], [[[2]]], [[[3]]]] toy_state = Inr s'"
    and dl: "disc_losses s' = disc_losses toy_state @
         [Val (sum_list (map2 (+)
                 (map2 (\<lambda>g x. disc_forward toy_torch (params (discriminator toy_state)) g
                                 - disc_forward toy_torch (params (discriminator toy_state)) x)
                    (generator_forward toy_torch (generator toy_state) noises) [[[[1]]], [[[2]]], [[[3]]]])
                 (gradient_penalty_spec (disc_input_grad toy_torch (params (discriminator toy_state))) alphas
                    [[[[1]]], [[[2]]], [[[3]]]] (generator_forward toy_torch (generator toy_state) noises) (lambda_pen toy_config)))
               / real (length [[[[1]]], [[[2]]], [[[3::real]]]]))]"
    and wd: "w_distances s' = w_distances toy_state @
         [Val (sum_list (map2 (\<lambda>x g. disc_forward toy_torch (params (discriminator toy_state)) x
                                      - disc_forward toy_torch (params (discriminator toy_state)) g)
               [[[[1]]], [[[2]]], [[[3]]]] (generator_forward toy_torch (generator toy_state) noises))
               / real (length [[[[1]]], [[[2]]], [[[3::real]]]]))]"
    and cl: "calls s' = calls toy_state @
         [ZeroGrad Disc,
          Backward (last (disc_losses s'))
            (requires_grad (discriminator toy_state)) (requires_grad (generator toy_state)),
          OptimizerStep Disc]"
    and d: "discriminator s' =
        (backward_into (zero_grad (discriminator toy_state))
           (fst (disc_loss_grads toy_torch (params (discriminator toy_state))
                  (params (generator toy_state)) [[[[1]]], [[[2]]], [[[3]]]] noises alphas)))
        \<lparr>params := snd (adam toy_torch (disc_optimizer toy_state) (params (discriminator toy_state))
             (grad (backward_into (zero_grad (discriminator toy_state))
                (fst (disc_loss_grads toy_torch (params (discriminator toy_state))
                        (params (generator toy_state)) [[[[1]]], [[[2]]], [[[3]]]]
                        noises alphas)))))\<rparr>"
    and opt: "disc_optimizer s' =
        fst (adam toy_torch (disc_optimizer toy_state) (params (discriminator toy_state))
             (grad (backward_into (zero_grad (discriminator toy_state))
                (fst (disc_loss_grads toy_torch (params (discriminator toy_state))
                        (params (generator toy_state)) [[[[1]]], [[[2]]], [[[3]]]]
                        noises alphas)))))"
    and g: "generator s' =
        backward_into (generator toy_state)
           (snd (disc_loss_grads toy_torch (params (discriminator toy_state))
                  (params (generator toy_state)) [[[[1]]], [[[2]]], [[[3]]]] noises alphas))"
    and go: "gen_optimizer s' = gen_optimizer toy_state"
    by (elim exE conjE)
  from n have "length noises = 3" by simp
  then obtain z1 z2 z3 where noises: "noises = [z1, z2, z3]" by (rule length3E)
  from draw_many_length [OF dm] have "length alphas = 3" by simp
  then obtain a1 a2 a3 where alphas: "alphas = [a1, a2, a3]" by (rule length3E)
  from dl have dl': "disc_losses s' = [Val (- 2)]"
    by (simp add: noises alphas generator_forward_def gradient_penalty_spec_def norm2_1)
  from wd have wd': "w_distances s' = [Val 2]"
    by (simp add: noises generator_forward_def)
  from cl dl' have cl': "calls s' = [ZeroGrad Disc, Backward (Val (- 2)) True True, OptimizerStep Disc]"
    by simp
  from d have d': "discriminator s' = \<lparr>params = [- 1], grad = Some [1], requires_grad = True\<rparr>"
    by (simp add: toy_torch_def toy_state_def zero_grad_def backward_into_def accumulate_def)
  from opt have opt': "disc_optimizer s' = 1"
    by (simp add: toy_torch_def toy_state_def zero_grad_def backward_into_def accumulate_def)
  from g have g': "generator s' = \<lparr>params = [0], grad = Some [2], requires_grad = True\<rparr>"
    by (simp add: toy_torch_def toy_state_def backward_into_def accumulate_def)
  from go have go': "gen_optimizer s' = 0"
    by (simp add: toy_state_def)
  from st dl' wd' cl' d' opt' g' go'
  show "\<exists>s'. disc_step toy_torch toy_config [[[[1]]], [[[2]]], [[[3]]]] toy_state = Inr s'
     \<and> disc_losses s' = [Val (- 2)] \<and> w_distances s' = [Val 2]
     \<and> calls s' = [ZeroGrad Disc, Backward (Val (- 2)) True True, OptimizerStep Disc]
     \<and> discriminator s' = \<lparr>params = [- 1], grad = Some [1], requires_grad = True\<rparr>
     \<and> disc_optimizer s' = 1
     \<and> generator s' = \<lparr>params = [0], grad = Some [2], requires_grad = True\<rparr>
     \<and> gen_optimizer s' = 0"
    by (intro exI [of _ s'] conjI) assumption+
next
  let ?cfg = "toy_config\<lparr>batch_size := 1\<rparr>"
  have ne: "[[[[1::real]]]] \<noteq> []" by simp
  have bs: "int (length [[[[1::real]]]]) \<le> batch_size ?cfg" by simp
  have nz: "0 \<le> n_noise_features ?cfg" by simp
  have sh: "\<forall>x\<in>set [[[[1::real]]]]. \<forall>p zs z. same_shape x (gen_forward toy_torch p zs z)"
    by (simp add: same_shape_def)
  note pin = disc_step_update [OF ne bs nz sh, of toy_state, THEN conjunct2, rule_format]
  from toy_small_batch_size obtain s2 where
    st: "disc_step toy_torch ?cfg [[[[1]]], [[[2]]]] toy_state = Inr s2"
    by (elim exE)
  from pin [OF st] obtain zs where
    rn: "randn_matrix (randn toy_torch) (min (batch_size ?cfg) (int (length [[[[1]]], [[[2::real]]]])))
           (n_noise_features ?cfg) (numpy_rng toy_state) = Inr (zs, numpy_rng s2)"
    and n: "int (length zs) = min (batch_size ?cfg) (int (length [[[[1]]], [[[2::real]]]]))"
    by (elim exE conjE)
  from rn have rn': "randn_matrix (randn toy_torch) 1 10 0 = Inr (zs, numpy_rng s2)"
    by (simp add: toy_state_def)
  from n have n': "length zs = 1" by simp
  from st rn' n'
  show "\<exists>s2 zs. disc_step toy_torch ?cfg [[[[1]]], [[[2]]]] toy_state = Inr s2
          \<and> randn_matrix (randn toy_torch) 1 10 0 = Inr (zs, numpy_rng s2) \<and> length zs = 1"
    by (intro exI [of _ s2] exI [of _ zs] conjI) assumption+
qed

subsection \<open>One generator update\<close>

lemma disc_phase_disc_steps:
  "disc_phase T cfg len s = Inr s' \<Longrightarrow> disc_steps s' = disc_steps s"
proof (induction T cfg len s rule: disc_phase.induct)
  case (1 T cfg len s)
  show ?case
  proof (cases "int (count_j s) < disc_steps s \<and> cursor_i s < len")
    case False
    with "1.prems" show ?thesis by simp
  next
    case True
    with "1.prems" obtain images rest where it: "train_iterator s = images # rest"
      by (cases "train_iterator s") auto
    let ?s1 = "s\<lparr>count_j := count_j s + 1, cursor_i := cursor_i s + 1, train_iterator := rest\<rparr>"
    from "1.prems" True it obtain s2 where
      st: "disc_step T cfg images ?s1 = Inr s2" and rest: "disc_phase T cfg len s2 = Inr s'"
      by (cases "disc_step T cfg images ?s1") auto
    from "1.IH" [OF True it st rest] disc_step_frame(4) [OF st]
    show ?thesis by simp
  qed
qed

lemma outer_iteration_disc_steps:
  assumes "outer_iteration T cfg len s = Inr s'"
  shows "disc_steps s' = scheduled_disc_steps (cfg_disc_steps cfg) (gen_iterations s)"
proof -
  let ?s2 = "(set_disc_requires_grad True s)
               \<lparr>disc_steps := scheduled_disc_steps (cfg_disc_steps cfg)
                                (gen_iterations (set_disc_requires_grad True s)),
                 count_j := 0\<rparr>"
  from assms obtain s3 where
    ph: "disc_phase T cfg len ?s2 = Inr s3" and
    gs: "gen_step T cfg (set_disc_requires_grad False s3) = Inr s'"
    unfolding outer_iteration_def Let_def
    by (cases "disc_phase T cfg len ?s2") auto
  from disc_phase_disc_steps [OF ph] gen_step_frame(4) [OF gs]
  show ?thesis by (simp add: set_disc_requires_grad_def)
qed

lemma gen_step_result:
  assumes rn: "randn_matrix (randn T) (batch_size cfg) (n_noise_features cfg) (numpy_rng s)
                 = Inr (noises, nr)"
  shows "\<exists>s'. gen_step T cfg s = Inr s'
    \<and> gen_losses s' = gen_losses s @
         [neg (mean1 (map (disc_forward T (params (discriminator s)))
                        (generator_forward T (generator s) noises)))]
    \<and> calls s' = calls s @
         [ZeroGrad Gen,
          Backward (neg (mean1 (map (disc_forward T (params (discriminator s)))
                        (generator_forward T (generator s) noises))))
            (requires_grad (discriminator s)) (requires_grad (generator s)),
          OptimizerStep Gen]
    \<and> gen_iterations s' = gen_iterations s + 1
    \<and> numpy_rng s' = nr"
proof -
  have gf: "generator_forward T (zero_grad (generator s)) noises
              = generator_forward T (generator s) noises"
    by (simp add: generator_forward_def)
  have cs: "concat (map (\<lambda>img. [disc_forward T (params (discriminator s)) img]) X)
              = map (disc_forward T (params (discriminator s))) X" for X
    by (induction X) simp_all
  show ?thesis
    unfolding gen_step_def discriminator_forward_def Let_def
    by (simp only: rn gf cs zero_grad_simps bind_err_def sum.case prod.case mean2_def)
       (simp split: prod.splits)
qed

lemma gen_step_losses:
  assumes "0 < batch_size cfg" and "0 \<le> n_noise_features cfg"
  shows "\<exists>noises nr s'.
      randn_matrix (randn T) (batch_size cfg) (n_noise_features cfg) (numpy_rng s)
        = Inr (noises, nr)
    \<and> int (length noises) = batch_size cfg
    \<and> gen_step T cfg s = Inr s'
    \<and> gen_losses s' = gen_losses s @
         [Val (- (sum_list (map (disc_forward T (params (discriminator s)))
                              (generator_forward T (generator s) noises))
                  / real_of_int (batch_size cfg)))]
    \<and> calls s' = calls s @
         [ZeroGrad Gen,
          Backward (last (gen_losses s'))
            (requires_grad (discriminator s)) (requires_grad (generator s)),
          OptimizerStep Gen]
    \<and> gen_iterations s' = gen_iterations s + 1
    \<and> (\<forall>len s''. outer_iteration T cfg len s' = Inr s'' \<longrightarrow>
          disc_steps s'' = scheduled_disc_steps (cfg_disc_steps cfg) (gen_iterations s + 1))"
proof -
  from randn_matrix_ok [of "batch_size cfg" "n_noise_features cfg" "randn T" "numpy_rng s"] assms
  obtain noises nr where
    rn: "randn_matrix (randn T) (batch_size cfg) (n_noise_features cfg) (numpy_rng s)
           = Inr (noises, nr)"
    and ln: "length noises = nat (batch_size cfg)"
    by auto
  let ?scores = "map (disc_forward T (params (discriminator s)))
                   (generator_forward T (generator s) noises)"
  from gen_step_result [OF rn] obtain s' where
    st: "gen_step T cfg s = Inr s'"
    and gl: "gen_losses s' = gen_losses s @ [neg (mean1 ?scores)]"
    and cl: "calls s' = calls s @
         [ZeroGrad Gen,
          Backward (neg (mean1 ?scores))
            (requires_grad (discriminator s)) (requires_grad (generator s)),
          OptimizerStep Gen]"
    and gi: "gen_iterations s' = gen_iterations s + 1"
    by blast
  have n: "int (length noises) = batch_size cfg" using ln assms(1) by simp
  have ls: "length ?scores = length noises" by (simp add: generator_forward_def)
  have ne: "?scores \<noteq> []" using ls n assms(1) by auto
  have "real (length ?scores) = real_of_int (batch_size cfg)"
    using ls n by (metis of_int_of_nat_eq)
  with ne have loss: "neg (mean1 ?scores)
      = Val (- (sum_list ?scores / real_of_int (batch_size cfg)))"
    by (simp add: mean1_def)
  from gl loss have gl': "gen_losses s' = gen_losses s @
      [Val (- (sum_list ?scores / real_of_int (batch_size cfg)))]"
    by simp
  from cl loss gl' have cl': "calls s' = calls s @
         [ZeroGrad Gen,
          Backward (last (gen_losses s'))
            (requires_grad (discriminator s)) (requires_grad (generator s)),
          OptimizerStep Gen]"
    by simp
  have sched: "\<forall>len s''. outer_iteration T cfg len s' = Inr s'' \<longrightarrow>
          disc_steps s'' = scheduled_disc_steps (cfg_disc_steps cfg) (gen_iterations s + 1)"
    using outer_iteration_disc_steps gi by metis
  from rn n st gl' cl' gi sched show ?thesis by blast
qed

lemma toy_scores_zero:
  "sum_list (map (disc_forward toy_torch p) (generator_forward toy_torch g noises)) = 0"
  by (induction noises) (simp_all add: generator_forward_def)

text \<open>
  C5. Every generator update, under a configuration with \<open>batch_size > 0\<close> and
  \<open>n_noise_features \<ge> 0\<close>, draws a noise batch of \<open>batch_size\<close> rows, generates a fake
  batch, scores it with the discriminator, takes minus the mean score as the loss of
  exactly one backward pass (the gradient of the loss is added to the zeroed gradient of
  the generator, and to that of the discriminator only if it is not frozen) and one step
  of the generator's optimizer on the generator's parameters (the discriminator's
  parameters and optimizer stay as they are), and adds one to \<open>gen_iterations\<close>, the
  counter from which the next pass of the outer loop chooses the number of discriminator
  steps.
\<close>

theorem gen_step_update:
  assumes "0 < batch_size cfg" and "0 \<le> n_noise_features cfg"
  shows "\<exists>noises nr s'.
      randn_matrix (randn T) (batch_size cfg) (n_noise_features cfg) (numpy_rng s)
        = Inr (noises, nr)
    \<and> int (length noises) = batch_size cfg
    \<and> gen_step T cfg s = Inr s'
    \<and> gen_losses s' = gen_losses s @
         [Val (- (sum_list (map (disc_forward T (params (discriminator s)))
                              (generator_forward T (generator s) noises))
                  / real_of_int (batch_size cfg)))]
    \<and> calls s' = calls s @
         [ZeroGrad Gen,
          Backward (last (gen_losses s'))
            (requires_grad (discriminator s)) (requires_grad (generator s)),
          OptimizerStep Gen]
    \<and> generator s' =
        (backward_into (zero_grad (generator s))
           (snd (gen_loss_grads T (params (discriminator s)) (params (generator s)) noises)))
        \<lparr>params := snd (adam T (gen_optimizer s) (params (generator s))
             (grad (backward_into (zero_grad (generator s))
                (snd (gen_loss_grads T (params (discriminator s)) (params (generator s))
                        noises)))))\<rparr>
    \<and> gen_optimizer s' =
        fst (adam T (gen_optimizer s) (params (generator s))
             (grad (backward_into (zero_grad (generator s))
                (snd (gen_loss_grads T (params (discriminator s)) (params (generator s))
                        noises)))))
    \<and> discriminator s' =
        backward_into (discriminator s)
           (fst (gen_loss_grads T (params (discriminator s)) (params (generator s)) noises))
    \<and> disc_optimizer s' = disc_optimizer s
    \<and> numpy_rng s' = nr
    \<and> gen_iterations s' = gen_iterations s + 1
    \<and> (\<forall>len s''. outer_iteration T cfg len s' = Inr s'' \<longrightarrow>
          disc_steps s'' = scheduled_disc_steps (cfg_disc_steps cfg) (gen_iterations s + 1))"
proof -
  from gen_step_losses [OF assms, of T s] obtain noises nr s' where
    rn: "randn_matrix (randn T) (batch_size cfg) (n_noise_features cfg) (numpy_rng s)
        = Inr (noises, nr)"
    and n: "int (length noises) = batch_size cfg"
    and st: "gen_step T cfg s = Inr s'"
    and gl: "gen_losses s' = gen_losses s @
         [Val (- (sum_list (map (disc_forward T (params (discriminator s)))
                              (generator_forward T (generator s) noises))
                  / real_of_int (batch_size cfg)))]"
    and cl: "calls s' = calls s @
         [ZeroGrad Gen,
          Backward (last (gen_losses s'))
            (requires_grad (discriminator s)) (requires_grad (generator s)),
          OptimizerStep Gen]"
    and gi: "gen_iterations s' = gen_iterations s + 1"
    and sc: "\<forall>len s''. outer_iteration T cfg len s' = Inr s'' \<longrightarrow>
          disc_steps s'' = scheduled_disc_steps (cfg_disc_steps cfg) (gen_iterations s + 1)"
    by (elim exE conjE)
  from gen_step_networks [OF st] obtain noises' where
    rn': "randn_matrix (randn T) (batch_size cfg) (n_noise_features cfg) (numpy_rng s)
        = Inr (noises', numpy_rng s')"
    and g': "generator s' =
        (backward_into (zero_grad (generator s))
           (snd (gen_loss_grads T (params (discriminator s)) (params (generator s)) noises')))
        \<lparr>params := snd (adam T (gen_optimizer s) (params (generator s))
             (grad (backward_into (zero_grad (generator s))
                (snd (gen_loss_grads T (params (discriminator s)) (params (generator s))
                        noises')))))\<rparr>"
    and o': "gen_optimizer s' =
        fst (adam T (gen_optimizer s) (params (generator s))
             (grad (backward_into (zero_grad (generator s))
                (snd (gen_loss_grads T (params (discriminator s)) (params (generator s))
                        noises')))))"
    and d': "discriminator s' =
        backward_into (discriminator s)
           (fst (gen_loss_grads T (params (discriminator s)) (params (generator s)) noises'))"
    and do': "disc_optimizer s' = disc_optimizer s"
    by (elim exE conjE)
  from rn rn' have same: "noises' = noises" "numpy_rng s' = nr" by simp_all
  note g = g' [unfolded same] and o = o' [unfolded same] and d = d' [unfolded same]
  from rn n st gl cl g o d do' same(2) gi sc show ?thesis
    by (intro exI [of _ noises] exI [of _ nr] exI [of _ s'] conjI) assumption+
qed

theorem gen_step_update_witness:
  "\<exists>s'. gen_step toy_torch toy_config (set_disc_requires_grad False toy_state) = Inr s'
     \<and> gen_losses s' = [Val 0] \<and> gen_iterations s' = 1
     \<and> calls s' = [ZeroGrad Gen, Backward (Val 0) False True, OptimizerStep Gen]
     \<and> generator s' = \<lparr>params = [- 4], grad = Some [4], requires_grad = True\<rparr>
     \<and> gen_optimizer s' = 1
     \<and> discriminator s' = \<lparr>params = [0], grad = None, requires_grad = False\<rparr>
     \<and> disc_optimizer s' = 0"
proof -
  let ?s = "set_disc_requires_grad False toy_state"
  have s: "discriminator ?s = \<lparr>params = [0], grad = None, requires_grad = False\<rparr>"
    "generator ?s = \<lparr>params = [0], grad = None, requires_grad = True\<rparr>"
    "gen_optimizer ?s = 0" "disc_optimizer ?s = 0" "gen_losses ?s = []" "calls ?s = []"
    "gen_iterations ?s = 0"
    by (simp_all add: set_disc_requires_grad_def toy_state_def)
  have "0 < batch_size toy_config" and "0 \<le> n_noise_features toy_config" by simp_all
  from gen_step_update [OF this, of toy_torch ?s] obtain noises nr s' where
    st: "gen_step toy_torch toy_config ?s = Inr s'"
    and gl: "gen_losses s' = gen_losses ?s @
         [Val (- (sum_list (map (disc_forward toy_torch (params (discriminator ?s)))
                              (generator_forward toy_torch (generator ?s) noises))
                  / real_of_int (batch_size toy_config)))]"
    and cl: "calls s' = calls ?s @
         [ZeroGrad Gen,
          Backward (last (gen_losses s'))
            (requires_grad (discriminator ?s)) (requires_grad (generator ?s)),
          OptimizerStep Gen]"
    and g: "generator s' =
        (backward_into (zero_grad (generator ?s))
           (snd (gen_loss_grads toy_torch (params (discriminator ?s)) (params (generator ?s)) noises)))
        \<lparr>params := snd (adam toy_torch (gen_optimizer ?s) (params (generator ?s))
             (grad (backward_into (zero_grad (generator ?s))
                (snd (gen_loss_grads toy_torch (params (discriminator ?s)) (params (generator ?s))
                        noises)))))\<rparr>"
    and opt: "gen_optimizer s' =
        fst (adam toy_torch (gen_optimizer ?s) (params (generator ?s))
             (grad (backward_into (zero_grad (generator ?s))
                (snd (gen_loss_grads toy_torch (params (discriminator ?s)) (params (generator ?s))
                        noises)))))"
    and d: "discriminator s' =
        backward_into (discriminator ?s)
           (fst (gen_loss_grads toy_torch (params (discriminator ?s)) (params (generator ?s)) noises))"
    and dopt: "disc_optimizer s' = disc_optimizer ?s"
    and gi: "gen_iterations s' = gen_iterations ?s + 1"
    by (elim exE conjE)
  from gl have gl': "gen_losses s' = [Val 0]"
    by (simp only: toy_scores_zero s) simp
  from cl gl' have cl': "calls s' = [ZeroGrad Gen, Backward (Val 0) False True, OptimizerStep Gen]"
    by (simp add: s)
  from g have g': "generator s' = \<lparr>params = [- 4], grad = Some [4], requires_grad = True\<rparr>"
    by (simp add: s toy_torch_def zero_grad_def backward_into_def accumulate_def)
  from opt have opt': "gen_optimizer s' = 1"
    by (simp add: s toy_torch_def zero_grad_def backward_into_def accumulate_def)
  from d have d': "discriminator s' = \<lparr>params = [0], grad = None, requires_grad = False\<rparr>"
    by (simp add: s backward_into_def)
  from dopt have dopt': "disc_optimizer s' = 0" by (simp add: s)
  from gi have gi': "gen_iterations s' = 1" by (simp add: s)
  from st gl' gi' cl' g' opt' d' dopt' show ?thesis
    by (intro exI [of _ s'] conjI) assumption+
qed

subsection \<open>Fresh run or resume\<close>

lemma str_int_1: "str_int 1 = ''1''" and str_int_64: "str_int 64 = ''64''"
  by code_simp+

text \<open>
  C9. The claim makes the command-line flag alone decide between a fresh run and a
  resume. The code decides by the key \<open>resume_training\<close> of the configuration file it
  loaded, which overwrites what the flag had set: without the flag and with
  \<open>resume_training: true\<close> in \<^verbatim>\<open>config.yml\<close> the run resumes from the directory
  \<^verbatim>\<open>None\<close>; with the flag naming \<^verbatim>\<open>run\<close>, whose configuration says
  \<open>resume_training: false\<close>, a fresh run starts in a new directory with freshly
  initialised models.
\<close>

theorem startup_resume_follows_config_file:
  "map_sum id (\<lambda>st. (resume_training st, result_dir st, model_weights st))
     (startup ''None'' ''now''
        [''config.yml'' \<mapsto> toy_config\<lparr>cfg_resume_training := True\<rparr>] (\<lambda>d. False))
     = Inr (True, ''None'', LoadStateDict ''Nonediscriminator.pt'' ''Nonegenerator.pt'')
   \<and> map_sum id (\<lambda>st. (resume_training st, result_dir st, model_weights st))
     (startup ''run'' ''now''
        [''config.yml'' \<mapsto> toy_config, ''run/config.yml'' \<mapsto> toy_config]
        (\<lambda>d. d = ''run/''))
     = Inr (False, ''now_e1_d64_g64/'', WeightInit)"
  by (simp add: startup_def toy_config_def Let_def str_int_1 str_int_64)

subsection \<open>Batches consumed and losses recorded by the loops\<close>

lemma disc_phase_count:
  "disc_phase T cfg len s = Inr s' \<Longrightarrow>
     cursor_i s \<le> cursor_i s'
     \<and> train_iterator s' = drop (cursor_i s' - cursor_i s) (train_iterator s)
     \<and> (\<exists>ls. disc_losses s' = disc_losses s @ ls \<and> length ls = cursor_i s' - cursor_i s)
     \<and> gen_losses s' = gen_losses s
     \<and> (cursor_i s \<le> len \<longrightarrow> cursor_i s' \<le> len)"
proof (induction T cfg len s rule: disc_phase.induct)
  case (1 T cfg len s)
  show ?case
  proof (cases "int (count_j s) < disc_steps s \<and> cursor_i s < len")
    case False
    with "1.prems" show ?thesis by simp
  next
    case True
    with "1.prems" obtain images rest where it: "train_iterator s = images # rest"
      by (cases "train_iterator s") auto
    let ?s1 = "s\<lparr>count_j := count_j s + 1, cursor_i := cursor_i s + 1, train_iterator := rest\<rparr>"
    from "1.prems" True it obtain s2 where
      st: "disc_step T cfg images ?s1 = Inr s2" and rest: "disc_phase T cfg len s2 = Inr s'"
      by (cases "disc_step T cfg images ?s1") auto
    note ih = "1.IH" [OF True it st rest]
    have c2: "cursor_i s2 = cursor_i s + 1" using disc_step_frame(1) [OF st] by simp
    have i2: "train_iterator s2 = rest" using disc_step_frame(3) [OF st] by simp
    obtain loss where l2: "disc_losses s2 = disc_losses s @ [loss]"
      using disc_step_appends [OF st] by auto
    have g2: "gen_losses s2 = gen_losses s" using disc_step_frame(6) [OF st] by simp
    from ih c2 have le: "cursor_i s + 1 \<le> cursor_i s'" by simp
    then have d: "cursor_i s' - cursor_i s = Suc (cursor_i s' - cursor_i s2)"
      using c2 by simp
    from ih obtain ls where ls: "disc_losses s' = disc_losses s2 @ ls"
      "length ls = cursor_i s' - cursor_i s2"
      by blast
    have app: "\<exists>ls'. disc_losses s' = disc_losses s @ ls' \<and> length ls' = cursor_i s' - cursor_i s"
      using ls l2 d by (intro exI [of _ "loss # ls"]) simp
    from ih c2 i2 g2 le True app show ?thesis
      by (simp add: it d)
  qed
qed

lemma outer_iteration_count:
  assumes "outer_iteration T cfg len s = Inr s'"
  shows "cursor_i s \<le> cursor_i s'
     \<and> train_iterator s' = drop (cursor_i s' - cursor_i s) (train_iterator s)
     \<and> (\<exists>ls. disc_losses s' = disc_losses s @ ls \<and> length ls = cursor_i s' - cursor_i s)
     \<and> (\<exists>loss. gen_losses s' = gen_losses s @ [loss])
     \<and> gen_iterations s' = gen_iterations s + 1
     \<and> (cursor_i s \<le> len \<longrightarrow> cursor_i s' \<le> len)
     \<and> (cursor_i s < len \<and> 0 < scheduled_disc_steps (cfg_disc_steps cfg) (gen_iterations s)
          \<longrightarrow> cursor_i s < cursor_i s')"
proof -
  let ?s2 = "(set_disc_requires_grad True s)
               \<lparr>disc_steps := scheduled_disc_steps (cfg_disc_steps cfg)
                                (gen_iterations (set_disc_requires_grad True s)),
                 count_j := 0\<rparr>"
  from assms obtain s3 where
    ph: "disc_phase T cfg len ?s2 = Inr s3" and
    gs: "gen_step T cfg (set_disc_requires_grad False s3) = Inr s'"
    unfolding outer_iteration_def Let_def
    by (cases "disc_phase T cfg len ?s2") auto
  have s2: "cursor_i ?s2 = cursor_i s" "train_iterator ?s2 = train_iterator s"
    "disc_losses ?s2 = disc_losses s" "gen_losses ?s2 = gen_losses s"
    "gen_iterations ?s2 = gen_iterations s" "count_j ?s2 = 0"
    "disc_steps ?s2 = scheduled_disc_steps (cfg_disc_steps cfg) (gen_iterations s)"
    by (simp_all add: set_disc_requires_grad_def)
  obtain loss where gl: "gen_losses s' = gen_losses (set_disc_requires_grad False s3) @ [loss]"
    using gen_step_appends [OF gs] by auto
  have s3: "cursor_i s' = cursor_i s3" "train_iterator s' = train_iterator s3"
    "disc_losses s' = disc_losses s3" "gen_losses s' = gen_losses s3 @ [loss]"
    "gen_iterations s' = gen_iterations s3 + 1"
    using gen_step_frame(1,3,5,6) [OF gs] gl
    by (simp_all add: set_disc_requires_grad_def)
  from disc_phase_count [OF ph] disc_phase_frame [OF ph] show ?thesis
    by (simp add: s2 s3)
qed

lemma batch_loop_count:
  "batch_loop T cfg len s = Inr s' \<Longrightarrow>
     cursor_i s \<le> cursor_i s'
     \<and> train_iterator s' = drop (cursor_i s' - cursor_i s) (train_iterator s)
     \<and> (\<exists>ls. disc_losses s' = disc_losses s @ ls \<and> length ls = cursor_i s' - cursor_i s)
     \<and> (cursor_i s \<le> len \<longrightarrow> cursor_i s' = len)"
proof (induction T cfg len s rule: batch_loop.induct)
  case (1 T cfg len s)
  show ?case
  proof (cases "cursor_i s < len")
    case False
    with "1.prems" show ?thesis by simp
  next
    case True
    with "1.prems" obtain s1 where
      oi: "outer_iteration T cfg len s = Inr s1" and rest: "batch_loop T cfg len s1 = Inr s'"
      by (cases "outer_iteration T cfg len s") auto
    note ih = "1.IH" [OF True oi rest]
    note st = outer_iteration_count [OF oi]
    from st True have le1: "cursor_i s1 \<le> len" by simp
    from st obtain l1 where l1: "disc_losses s1 = disc_losses s @ l1"
      "length l1 = cursor_i s1 - cursor_i s" by blast
    from ih obtain l2 where l2: "disc_losses s' = disc_losses s1 @ l2"
      "length l2 = cursor_i s' - cursor_i s1" by blast
    have app: "\<exists>ls. disc_losses s' = disc_losses s @ ls \<and> length ls = cursor_i s' - cursor_i s"
      using l1 l2 st ih by (intro exI [of _ "l1 @ l2"]) simp
    from ih st le1 app show ?thesis
      by (simp add: add.commute)
  qed
qed

subsection \<open>The batches of a loader\<close>

lemma ceil_div_step:
  assumes "0 < (n::nat)" and "0 < m"
  shows "(m + n - 1) div n = Suc ((m - 1) div n)"
proof -
  have "m + n - 1 = (m - 1) + n" using assms by arith
  then have "(m + n - 1) div n = ((m - 1) + n) div n" by (rule arg_cong)
  also have "\<dots> = Suc ((m - 1) div n)" using assms(1) by simp
  finally show ?thesis .
qed

lemma chunks_Nil: "chunks n [] = []"
  by (subst chunks.simps) simp

lemma chunks_step:
  "0 < n \<Longrightarrow> xs \<noteq> [] \<Longrightarrow> chunks n xs = take n xs # chunks n (drop n xs)"
  by (subst chunks.simps) simp

lemma chunks_members:
  "b \<in> set (chunks n xs) \<Longrightarrow> length b \<le> n \<and> set b \<subseteq> set xs"
proof (induction n xs rule: chunks.induct)
  case (1 n xs)
  show ?case
  proof (cases "n = 0 \<or> xs = []")
    case True
    with "1.prems" show ?thesis by (subst (asm) chunks.simps) simp
  next
    case False
    from False have eq: "chunks n xs = take n xs # chunks n (drop n xs)"
      by (intro chunks_step) simp_all
    from "1.prems" have "b = take n xs \<or> b \<in> set (chunks n (drop n xs))"
      unfolding eq by simp
    then show ?thesis
    proof
      assume "b = take n xs"
      then show ?thesis by (auto dest: in_set_takeD)
    next
      assume "b \<in> set (chunks n (drop n xs))"
      from "1.IH" [OF False this] show ?thesis
        by (auto dest: in_set_dropD)
    qed
  qed
qed

lemma length_chunks:
  "0 < n \<Longrightarrow> length (chunks n xs) = (length xs + n - 1) div n"
proof (induction n xs rule: chunks.induct)
  case (1 n xs)
  show ?case
  proof (cases "xs = []")
    case True
    with "1.prems" show ?thesis by (simp add: chunks_Nil)
  next
    case False
    with "1.prems" have nz: "\<not> (n = 0 \<or> xs = [])" by simp
    have pos: "0 < length xs" using False by simp
    have step: "length (chunks n xs) = Suc (length (chunks n (drop n xs)))"
      using chunks_step [OF "1.prems" False] by simp
    note ih = "1.IH" [OF nz "1.prems"]
    have top: "(length xs + n - 1) div n = Suc ((length xs - 1) div n)"
      using "1.prems" pos by (rule ceil_div_step)
    show ?thesis
    proof (cases "n < length xs")
      case True
      then have "0 < length xs - n" by simp
      from ceil_div_step [OF "1.prems" this]
      have "(length xs - n + n - 1) div n = Suc ((length xs - n - 1) div n)" .
      moreover have "length xs - n + n - 1 = length xs - 1" using True by simp
      ultimately have "(length xs - 1) div n = Suc ((length xs - n - 1) div n)" by simp
      moreover have "length (chunks n (drop n xs)) = Suc ((length xs - n - 1) div n)"
        using ih ceil_div_step [OF "1.prems" \<open>0 < length xs - n\<close>] by simp
      ultimately show ?thesis using step top by simp
    next
      case False
      then have d: "drop n xs = []" by simp
      have "length xs - 1 < n" using False pos by arith
      then have "(length xs - 1) div n = 0" by (rule div_less)
      with step d top show ?thesis by (simp add: chunks_Nil)
    qed
  qed
qed

subsection \<open>The loops raise nothing on batches of the right extents\<close>

lemma gen_step_ok:
  assumes "0 \<le> batch_size cfg" and "0 \<le> n_noise_features cfg"
  shows "\<exists>s'. gen_step T cfg s = Inr s'"
proof -
  from randn_matrix_ok [OF assms, of "randn T" "numpy_rng s"] obtain noises nr where
    "randn_matrix (randn T) (batch_size cfg) (n_noise_features cfg) (numpy_rng s)
       = Inr (noises, nr)"
    by blast
  from gen_step_result [OF this] show ?thesis by blast
qed

lemma disc_phase_ok:
  "0 \<le> n_noise_features cfg \<Longrightarrow>
   \<forall>b\<in>set (train_iterator s). int (length b) \<le> batch_size cfg
      \<and> (\<forall>x\<in>set b. \<forall>p zs z. same_shape x (gen_forward T p zs z)) \<Longrightarrow>
   len \<le> cursor_i s + length (train_iterator s) \<Longrightarrow>
   \<exists>s'. disc_phase T cfg len s = Inr s'"
proof (induction T cfg len s rule: disc_phase.induct)
  case (1 T cfg len s)
  show ?case
  proof (cases "int (count_j s) < disc_steps s \<and> cursor_i s < len")
    case False
    then show ?thesis by (subst disc_phase.simps) auto
  next
    case True
    with "1.prems"(3) obtain images rest where it: "train_iterator s = images # rest"
      by (cases "train_iterator s") auto
    let ?s1 = "s\<lparr>count_j := count_j s + 1, cursor_i := cursor_i s + 1, train_iterator := rest\<rparr>"
    from "1.prems"(2) it have
      bs: "int (length images) \<le> batch_size cfg" and
      sh: "\<forall>x\<in>set images. \<forall>p zs z. same_shape x (gen_forward T p zs z)"
      by simp_all
    from disc_step_ok [OF bs "1.prems"(1) sh, of ?s1] obtain s2 where
      st: "disc_step T cfg images ?s1 = Inr s2"
      by blast
    have c2: "cursor_i s2 = cursor_i s + 1" using disc_step_frame(1) [OF st] by simp
    have i2: "train_iterator s2 = rest" using disc_step_frame(3) [OF st] by simp
    have inv: "\<forall>b\<in>set (train_iterator s2). int (length b) \<le> batch_size cfg
      \<and> (\<forall>x\<in>set b. \<forall>p zs z. same_shape x (gen_forward T p zs z))"
      using "1.prems"(2) it i2 by simp
    have enough: "len \<le> cursor_i s2 + length (train_iterator s2)"
      using "1.prems"(3) it i2 c2 by simp
    from "1.IH" [OF True it st "1.prems"(1) inv enough] obtain s' where
      "disc_phase T cfg len s2 = Inr s'" by blast
    with True it st show ?thesis by simp
  qed
qed

lemma outer_iteration_ok:
  assumes nz: "0 \<le> n_noise_features cfg" and bs: "0 \<le> batch_size cfg"
    and inv: "\<forall>b\<in>set (train_iterator s). int (length b) \<le> batch_size cfg
      \<and> (\<forall>x\<in>set b. \<forall>p zs z. same_shape x (gen_forward T p zs z))"
    and enough: "len \<le> cursor_i s + length (train_iterator s)"
  shows "\<exists>s'. outer_iteration T cfg len s = Inr s'"
proof -
  let ?s2 = "(set_disc_requires_grad True s)
               \<lparr>disc_steps := scheduled_disc_steps (cfg_disc_steps cfg)
                                (gen_iterations (set_disc_requires_grad True s)),
                 count_j := 0\<rparr>"
  have s2: "cursor_i ?s2 = cursor_i s" "train_iterator ?s2 = train_iterator s"
    by (simp_all add: set_disc_requires_grad_def)
  from disc_phase_ok [of cfg ?s2 T len] nz inv enough obtain s3 where
    ph: "disc_phase T cfg len ?s2 = Inr s3"
    unfolding s2 by blast
  from gen_step_ok [OF bs nz, of T "set_disc_requires_grad False s3"] obtain s' where
    "gen_step T cfg (set_disc_requires_grad False s3) = Inr s'" by blast
  with ph show ?thesis
    unfolding outer_iteration_def Let_def by simp
qed

lemma batch_loop_ok:
  "0 \<le> n_noise_features cfg \<Longrightarrow> 0 \<le> batch_size cfg \<Longrightarrow>
   \<forall>b\<in>set (train_iterator s). int (length b) \<le> batch_size cfg
      \<and> (\<forall>x\<in>set b. \<forall>p zs z. same_shape x (gen_forward T p zs z)) \<Longrightarrow>
   len \<le> cursor_i s + length (train_iterator s) \<Longrightarrow>
   \<exists>s'. batch_loop T cfg len s = Inr s'"
proof (induction T cfg len s rule: batch_loop.induct)
  case (1 T cfg len s)
  show ?case
  proof (cases "cursor_i s < len")
    case False
    then show ?thesis by (subst batch_loop.simps) auto
  next
    case True
    from outer_iteration_ok [OF "1.prems"] obtain s1 where
      oi: "outer_iteration T cfg len s = Inr s1" by blast
    note c = outer_iteration_count [OF oi]
    from c have it: "train_iterator s1 = drop (cursor_i s1 - cursor_i s) (train_iterator s)"
      by simp
    have inv: "\<forall>b\<in>set (train_iterator s1). int (length b) \<le> batch_size cfg
      \<and> (\<forall>x\<in>set b. \<forall>p zs z. same_shape x (gen_forward T p zs z))"
      using "1.prems"(3) unfolding it by (meson in_set_dropD)
    have enough: "len \<le> cursor_i s1 + length (train_iterator s1)"
      using "1.prems"(4) c unfolding it by (simp add: le_diff_conv)
    from "1.IH" [OF True oi "1.prems"(1,2) inv enough] obtain s' where
      "batch_loop T cfg len s1 = Inr s'" by blast
    with True oi show ?thesis by simp
  qed
qed

declare disc_phase.simps [simp del] batch_loop.simps [simp del]

subsection \<open>One epoch\<close>

lemma checkpoint_frame:
  assumes "checkpoint T cfg s = Inr s'"
  shows "disc_losses s' = disc_losses s" "gen_losses s' = gen_losses s"
    "train_iterator s' = train_iterator s" "cursor_i s' = cursor_i s"
    "disc_steps s' = disc_steps s" "gen_iterations s' = gen_iterations s"
    "calls s' = calls s" "discriminator s' = discriminator s"
  using assms unfolding checkpoint_def bind_err_def
  by (auto split: sum.splits prod.splits)

lemma checkpoint_ok:
  assumes "0 \<le> batch_size cfg" and "0 \<le> n_noise_features cfg"
  shows "\<exists>s'. checkpoint T cfg s = Inr s'"
proof -
  from randn_matrix_ok [OF assms, of "randn T" "numpy_rng s"] obtain noises nr where
    "randn_matrix (randn T) (batch_size cfg) (n_noise_features cfg) (numpy_rng s)
       = Inr (noises, nr)"
    by blast
  then show ?thesis by (simp add: checkpoint_def bind_err_def)
qed

text \<open>The state in which the loop over the batches of an epoch starts.\<close>

lemma train_epoch_split:
  assumes "train_epoch T cfg L e s = Inr s'"
  shows "\<exists>s2. batch_loop T cfg (len_loader L)
            (s\<lparr>epoch_dlosses := [], epoch_glosses := [],
               train_iterator := fst (iter_loader T L (torch_rng s)),
               torch_rng := snd (iter_loader T L (torch_rng s)), cursor_i := 0\<rparr>) = Inr s2
          \<and> (s' = s2 \<or> checkpoint T cfg s2 = Inr s')"
  using assms unfolding train_epoch_def bind_err_def Let_def
  by (auto simp: case_prod_unfold split: sum.splits if_splits)

lemma train_epoch_count:
  assumes "train_epoch T cfg L e s = Inr s'"
  shows "(\<exists>ls. disc_losses s' = disc_losses s @ ls \<and> length ls = len_loader L)
    \<and> train_iterator s' = drop (len_loader L) (fst (iter_loader T L (torch_rng s)))"
proof -
  let ?s1 = "s\<lparr>epoch_dlosses := [], epoch_glosses := [],
               train_iterator := fst (iter_loader T L (torch_rng s)),
               torch_rng := snd (iter_loader T L (torch_rng s)), cursor_i := 0\<rparr>"
  from train_epoch_split [OF assms] obtain s2 where
    bl: "batch_loop T cfg (len_loader L) ?s1 = Inr s2"
    and fin: "s' = s2 \<or> checkpoint T cfg s2 = Inr s'"
    by blast
  note blc = batch_loop_count [OF bl]
  from blc have c: "cursor_i s2 = len_loader L" by simp
  from blc have it: "train_iterator s2 = drop (cursor_i s2) (fst (iter_loader T L (torch_rng s)))"
    by simp
  from blc obtain ls0 where "disc_losses s2 = disc_losses ?s1 @ ls0"
    "length ls0 = cursor_i s2 - cursor_i ?s1"
    by blast
  then have dl: "\<exists>ls. disc_losses s2 = disc_losses s @ ls \<and> length ls = cursor_i s2"
    by (intro exI [of _ ls0]) simp
  from fin have same: "disc_losses s' = disc_losses s2" "train_iterator s' = train_iterator s2"
    using checkpoint_frame(1,3) by blast+
  from dl obtain ls where ls: "disc_losses s2 = disc_losses s @ ls" "length ls = cursor_i s2"
    by blast
  have "\<exists>ls. disc_losses s' = disc_losses s @ ls \<and> length ls = len_loader L"
    using ls c same by (intro exI [of _ ls]) simp
  moreover have "train_iterator s' = drop (len_loader L) (fst (iter_loader T L (torch_rng s)))"
    using it c same by simp
  ultimately show ?thesis by blast
qed

lemma iter_loader_length:
  assumes "0 < loader_batch_size L"
    and "length (fst (shuffle T r (train_data L))) = length (train_data L)"
  shows "length (fst (iter_loader T L r)) = len_loader L"
proof -
  obtain p r' where sf: "shuffle T r (train_data L) = (p, r')"
    by (cases "shuffle T r (train_data L)")
  with assms(2) have "length p = length (train_data L)" by simp
  then show ?thesis
    by (simp add: iter_loader_def sf len_loader_def length_chunks [OF assms(1)])
qed

lemma iter_loader_members:
  assumes "b \<in> set (fst (iter_loader T L r))"
  shows "length b \<le> loader_batch_size L \<and> set b \<subseteq> set (fst (shuffle T r (train_data L)))"
proof -
  obtain p r' where sf: "shuffle T r (train_data L) = (p, r')"
    by (cases "shuffle T r (train_data L)")
  with assms have "b \<in> set (chunks (loader_batch_size L) p)"
    by (simp add: iter_loader_def)
  from chunks_members [OF this] sf show ?thesis by simp
qed

lemma train_epoch_ok:
  assumes bs: "0 < batch_size cfg" and lbs: "int (loader_batch_size L) = batch_size cfg"
    and nz: "0 \<le> n_noise_features cfg"
    and pe: "print_every cfg \<noteq> 0" and cp: "checkpoints cfg \<noteq> 0"
    and perm: "\<forall>r. length (fst (shuffle T r (train_data L))) = length (train_data L)
                 \<and> set (fst (shuffle T r (train_data L))) \<subseteq> set (train_data L)"
    and sh: "\<forall>x\<in>set (train_data L). \<forall>p zs z. same_shape x (gen_forward T p zs z)"
  shows "\<exists>s'. train_epoch T cfg L e s = Inr s'"
proof -
  let ?it = "fst (iter_loader T L (torch_rng s))"
  let ?s1 = "s\<lparr>epoch_dlosses := [], epoch_glosses := [],
               train_iterator := ?it,
               torch_rng := snd (iter_loader T L (torch_rng s)), cursor_i := 0\<rparr>"
  have bs0: "0 \<le> batch_size cfg" using bs by simp
  have lpos: "0 < loader_batch_size L" using bs lbs by simp
  have inv: "\<forall>b\<in>set (train_iterator ?s1). int (length b) \<le> batch_size cfg
      \<and> (\<forall>x\<in>set b. \<forall>p zs z. same_shape x (gen_forward T p zs z))"
  proof
    fix b assume "b \<in> set (train_iterator ?s1)"
    then have "b \<in> set ?it" by simp
    from iter_loader_members [OF this] perm
    have "length b \<le> loader_batch_size L" and "set b \<subseteq> set (train_data L)"
      by auto
    with lbs sh show "int (length b) \<le> batch_size cfg
      \<and> (\<forall>x\<in>set b. \<forall>p zs z. same_shape x (gen_forward T p zs z))"
      by auto
  qed
  have enough: "len_loader L \<le> cursor_i ?s1 + length (train_iterator ?s1)"
    using iter_loader_length [OF lpos, of T "torch_rng s"] perm by simp
  from batch_loop_ok [OF nz bs0 inv enough] obtain s2 where
    bl: "batch_loop T cfg (len_loader L) ?s1 = Inr s2" by blast
  from checkpoint_ok [OF bs0 nz, of T s2] obtain s3 where
    ck: "checkpoint T cfg s2 = Inr s3" by blast
  show ?thesis
    unfolding train_epoch_def bind_err_def Let_def
    using pe cp bl ck
    by (simp add: py_mod_def case_prod_unfold)
qed

text \<open>
  C10. In every epoch that ends without an error, whatever the configuration and the
  scheduled numbers of discriminator steps, the entries appended to \<open>disc_losses\<close> are as
  many as \<open>len(train_loader)\<close>, and exactly that many batches have been taken from the
  iterator, in order; with a loader whose shuffle keeps the number of samples these are
  all the batches the loader yields. A generator update takes no batch and appends no
  discriminator loss.
\<close>

theorem epoch_disc_losses_match_batches:
  assumes "train_epoch T cfg L e s = Inr s'"
  shows "(\<exists>ls. disc_losses s' = disc_losses s @ ls \<and> length ls = len_loader L)
    \<and> train_iterator s' = drop (len_loader L) (fst (iter_loader T L (torch_rng s)))
    \<and> (0 < loader_batch_size L
         \<and> length (fst (shuffle T (torch_rng s) (train_data L))) = length (train_data L)
        \<longrightarrow> length (fst (iter_loader T L (torch_rng s))) = len_loader L
            \<and> train_iterator s' = [])
    \<and> (\<forall>s1 s2. gen_step T cfg s1 = Inr s2 \<longrightarrow>
          train_iterator s2 = train_iterator s1 \<and> cursor_i s2 = cursor_i s1
          \<and> disc_losses s2 = disc_losses s1)"
proof -
  note c = train_epoch_count [OF assms]
  have full: "length (fst (iter_loader T L (torch_rng s))) = len_loader L
            \<and> train_iterator s' = []"
    if "0 < loader_batch_size L"
      and "length (fst (shuffle T (torch_rng s) (train_data L))) = length (train_data L)"
    using iter_loader_length [OF that] c by simp
  have gen: "\<forall>s1 s2. gen_step T cfg s1 = Inr s2 \<longrightarrow>
          train_iterator s2 = train_iterator s1 \<and> cursor_i s2 = cursor_i s1
          \<and> disc_losses s2 = disc_losses s1"
    using gen_step_frame(1,3,6) by blast
  from c full gen show ?thesis by blast
qed

lemma toy_len_loader: "len_loader toy_loader = 1"
  by (simp add: len_loader_def)

lemma toy_epoch_ok: "\<exists>s'. train_epoch toy_torch toy_config toy_loader e s = Inr s'"
proof (rule train_epoch_ok)
  show "0 < batch_size toy_config" by simp
  show "int (loader_batch_size toy_loader) = batch_size toy_config" by simp
  show "0 \<le> n_noise_features toy_config" by simp
  show "print_every toy_config \<noteq> 0" by simp
  show "checkpoints toy_config \<noteq> 0" by simp
  show "\<forall>r. length (fst (shuffle toy_torch r (train_data toy_loader))) = length (train_data toy_loader)
          \<and> set (fst (shuffle toy_torch r (train_data toy_loader))) \<subseteq> set (train_data toy_loader)"
    by simp
  show "\<forall>x\<in>set (train_data toy_loader). \<forall>p zs z. same_shape x (gen_forward toy_torch p zs z)"
    by (simp add: same_shape_def)
qed

theorem epoch_disc_losses_match_batches_witness:
  "\<exists>s'. train_epoch toy_torch toy_config toy_loader 0 toy_state = Inr s'
     \<and> length (disc_losses s') = 1 \<and> train_iterator s' = []"
proof -
  from toy_epoch_ok obtain s' where
    ep: "train_epoch toy_torch toy_config toy_loader 0 toy_state = Inr s'"
    by blast
  have "0 < loader_batch_size toy_loader
         \<and> length (fst (shuffle toy_torch (torch_rng toy_state) (train_data toy_loader)))
             = length (train_data toy_loader)"
    by simp
  with epoch_disc_losses_match_batches [OF ep] toy_len_loader
  have "length (disc_losses s') = 1 \<and> train_iterator s' = []"
    by auto
  with ep show ?thesis by blast
qed

subsection \<open>A run of one epoch over three samples\<close>

lemma scheduled_positive: "0 < cfg \<Longrightarrow> 0 < scheduled_disc_steps cfg g"
  by (simp add: scheduled_disc_steps_def)

lemma batch_loop_single:
  assumes bl: "batch_loop T cfg 1 s = Inr s'" and c0: "cursor_i s = 0"
    and pos: "0 < cfg_disc_steps cfg"
  shows "outer_iteration T cfg 1 s = Inr s'"
proof -
  from bl c0 obtain s1 where
    oi: "outer_iteration T cfg 1 s = Inr s1" and rest: "batch_loop T cfg 1 s1 = Inr s'"
    by (subst (asm) batch_loop.simps) (cases "outer_iteration T cfg 1 s"; simp)
  note c = outer_iteration_count [OF oi]
  from c c0 scheduled_positive [OF pos, of "gen_iterations s"] have "cursor_i s1 = 1"
    by simp
  with rest have "s' = s1"
    by (subst (asm) batch_loop.simps) simp
  with oi show ?thesis by simp
qed

text \<open>
  C8. With \<open>batch_size = 8\<close>, \<open>n_noise_features = 10\<close>, \<open>epochs = 1\<close>,
  \<open>disc_steps = 1\<close> (and non-zero \<open>print_every\<close> and \<open>checkpoints\<close>) and a loader of
  batch size 8 over three samples of the generator's extents, the loader has one batch
  per epoch, and the run of one epoch returns without an error, having appended exactly
  one entry to \<open>disc_losses\<close> and exactly one to \<open>gen_losses\<close>; started with no
  generator update done, the schedule asked for 100 discriminator steps, of which the
  single batch allowed one, and one generator update followed.
\<close>

theorem one_epoch_three_samples:
  assumes bs: "batch_size cfg = 8" and nz: "n_noise_features cfg = 10"
    and ep: "epochs cfg = 1" and ds: "cfg_disc_steps cfg = 1"
    and pe: "print_every cfg \<noteq> 0" and cp: "checkpoints cfg \<noteq> 0"
    and n3: "length (train_data L) = 3" and lbs: "loader_batch_size L = 8"
    and perm: "\<forall>r. length (fst (shuffle T r (train_data L))) = length (train_data L)
                 \<and> set (fst (shuffle T r (train_data L))) \<subseteq> set (train_data L)"
    and sh: "\<forall>x\<in>set (train_data L). \<forall>p zs z. same_shape x (gen_forward T p zs z)"
  shows "len_loader L = 1
    \<and> (\<exists>s' dl gl. train T cfg L s = Inr s'
          \<and> disc_losses s' = disc_losses s @ [dl]
          \<and> gen_losses s' = gen_losses s @ [gl]
          \<and> gen_iterations s' = gen_iterations s + 1
          \<and> (gen_iterations s = 0 \<longrightarrow> disc_steps s' = 100))"
proof -
  have len: "len_loader L = 1" using n3 lbs by (simp add: len_loader_def)
  have "0 < batch_size cfg" "int (loader_batch_size L) = batch_size cfg"
    "0 \<le> n_noise_features cfg"
    using bs nz lbs by simp_all
  from train_epoch_ok [OF this pe cp perm sh, of 0 s] obtain s' where
    te: "train_epoch T cfg L 0 s = Inr s'" by blast
  have tr: "train T cfg L s = Inr s'"
    using te ep by (simp add: train_def upto.simps)
  let ?s1 = "s\<lparr>epoch_dlosses := [], epoch_glosses := [],
               train_iterator := fst (iter_loader T L (torch_rng s)),
               torch_rng := snd (iter_loader T L (torch_rng s)), cursor_i := 0\<rparr>"
  from train_epoch_split [OF te] len obtain s2 where
    bl: "batch_loop T cfg 1 ?s1 = Inr s2"
    and fin: "s' = s2 \<or> checkpoint T cfg s2 = Inr s'"
    by auto
  have pos: "0 < cfg_disc_steps cfg" using ds by simp
  have oi: "outer_iteration T cfg 1 ?s1 = Inr s2"
    using bl _ pos by (rule batch_loop_single) simp
  note c = outer_iteration_count [OF oi]
  from c obtain gl where gl: "gen_losses s2 = gen_losses s @ [gl]" by auto
  from c have gi: "gen_iterations s2 = gen_iterations s + 1" by simp
  have sched: "disc_steps s2 = scheduled_disc_steps (cfg_disc_steps cfg) (gen_iterations s)"
    using outer_iteration_disc_steps [OF oi] by simp
  from fin have same: "gen_losses s' = gen_losses s2" "gen_iterations s' = gen_iterations s2"
    "disc_steps s' = disc_steps s2"
    using checkpoint_frame(2,5,6) by blast+
  from train_epoch_count [OF te] len obtain ls where
    ls: "disc_losses s' = disc_losses s @ ls" "length ls = 1"
    by auto
  then obtain dl where "ls = [dl]" by (cases ls) auto
  with ls have dl: "disc_losses s' = disc_losses s @ [dl]" by simp
  have hundred: "gen_iterations s = 0 \<longrightarrow> disc_steps s' = 100"
    using sched same by (simp add: scheduled_disc_steps_def)
  from len tr dl gl gi same hundred show ?thesis by auto
qed

theorem one_epoch_three_samples_witness:
  "\<exists>s' dl gl. train toy_torch toy_config toy_loader toy_state = Inr s'
     \<and> disc_losses s' = [dl] \<and> gen_losses s' = [gl]
     \<and> gen_iterations s' = 1 \<and> disc_steps s' = 100"
proof -
  have "\<forall>r. length (fst (shuffle toy_torch r (train_data toy_loader))) = length (train_data toy_loader)
          \<and> set (fst (shuffle toy_torch r (train_data toy_loader))) \<subseteq> set (train_data toy_loader)"
    by simp
  moreover have "\<forall>x\<in>set (train_data toy_loader). \<forall>p zs z. same_shape x (gen_forward toy_torch p zs z)"
    by (simp add: same_shape_def)
  ultimately show ?thesis
    using one_epoch_three_samples [of toy_config toy_loader toy_torch toy_state]
    by simp
qed

subsection \<open>Which network is trainable during a backward pass\<close>


lemma set_disc_requires_grad_simps [simp]:
  "requires_grad (discriminator (set_disc_requires_grad b s)) = b"
  "generator (set_disc_requires_grad b s) = generator s"
  "calls (set_disc_requires_grad b s) = calls s"
  "cursor_i (set_disc_requires_grad b s) = cursor_i s"
  "gen_iterations (set_disc_requires_grad b s) = gen_iterations s"
  "disc_optimizer (set_disc_requires_grad b s) = disc_optimizer s"
  by (simp_all add: set_disc_requires_grad_def)







end
